theory Spec2Isabelle
  imports Complex_Main "HOL-Library.AList"
begin

section \<open>Values, objects and the platform\<close>

text \<open>
  The renderer of \<^verbatim>\<open>src/compiler.js\<close> works on JavaScript values. A number is a
  double: a finite value (every double is a rational; the sign of zero is not kept),
  the two infinities and NaN. \<open>IntegerHelper\<close> is the frozen object
  \<^verbatim>\<open>BUILT_INS.Integer\<close>, the one that carries \<^verbatim>\<open>parseInt\<close>. Other objects
  and functions as context values are outside the model. A template is a string of code
  units below 256.
\<close>

datatype jsnum = Fin rat | PosInf | NegInf | NaN

datatype val = Undefined | Null | Bool bool | Num jsnum | Str string | IntegerHelper

text \<open>
  An object is the list of its own enumerable properties in insertion order (what
  \<^verbatim>\<open>Object.entries\<close> returns); the store is the list of allocated objects and a
  reference is an index into it.
\<close>

type_synonym obj = "(string \<times> val) list"
type_synonym store = "obj list"
type_synonym ref = nat

datatype error =
    UnterminatedDirective nat
  | UnableToParseSet string
  | ElseifWithoutIf
  | ElseWithoutIf
  | EndWithoutIf
  | UnclosedIf
  | EvaluationError string
  | VelocityError string

text \<open>
  What the code takes from Node and not from this repository: \<open>runScript\<close> is
  \<^verbatim>\<open>new vm.Script(text).runInNewContext({__resolve, Math, Number, parseInt})\<close>, given the
  script text and the resolver; it returns the script's value or the message of what
  it threw, and it may change the host objects it was handed (\<open>'h\<close>). The script
  reaches the context only through the resolver, which reads it.
  \<open>numberToString\<close> is \<^verbatim>\<open>String\<close> on a number and \<open>stringToNumber\<close> is
  \<^verbatim>\<open>Number\<close> on a string; both round decimals to doubles.

  The host objects are not frozen, and the renderer itself calls three functions of
  theirs: \<^verbatim>\<open>Number.isInteger\<close> and \<^verbatim>\<open>Math.trunc\<close> in \<open>normalizeValue\<close>, and
  \<^verbatim>\<open>Object.prototype.hasOwnProperty\<close> in the guard of the builtin names. A script can
  replace each of them (\<^verbatim>\<open>Math.trunc = Math.abs\<close>, or through
  \<^verbatim>\<open>Math.constructor.prototype\<close>), so what they return is read from the host state:
  \<open>numberIsInteger\<close>, \<open>mathTrunc\<close> and \<open>hasOwnProperty\<close> are these functions as the
  host state has them. A replacement is taken to return a value and to leave the host
  objects as they are.
\<close>

record 'h platform =
  runScript :: "'h \<Rightarrow> string \<Rightarrow> (string \<Rightarrow> val) \<Rightarrow> (string + val) \<times> 'h"
  numberToString :: "jsnum \<Rightarrow> string"
  stringToNumber :: "string \<Rightarrow> jsnum"
  numberIsInteger :: "'h \<Rightarrow> jsnum \<Rightarrow> val"
  mathTrunc :: "'h \<Rightarrow> jsnum \<Rightarrow> val"
  hasOwnProperty :: "'h \<Rightarrow> obj \<Rightarrow> string \<Rightarrow> val"

definition getProp :: "obj \<Rightarrow> string \<Rightarrow> val" where
  "getProp ob k = (case map_of ob k of None \<Rightarrow> Undefined | Some v \<Rightarrow> v)"

definition setProp :: "obj \<Rightarrow> string \<Rightarrow> val \<Rightarrow> obj" where
  "setProp ob k v = AList.update k v ob"

text \<open>The built-in \<^verbatim>\<open>hasOwnProperty\<close>, as it is before any script replaces it.\<close>

definition hasOwn :: "obj \<Rightarrow> string \<Rightarrow> bool" where
  "hasOwn ob k = (map_of ob k \<noteq> None)"

definition writeProp :: "store \<Rightarrow> ref \<Rightarrow> string \<Rightarrow> val \<Rightarrow> store" where
  "writeProp st a k v = st[a := setProp (st ! a) k v]"

definition BUILT_INS :: obj where
  "BUILT_INS = [(''Integer'', IntegerHelper)]"

subsection \<open>Character classes of the regular expressions\<close>

definition isDigit :: "char \<Rightarrow> bool" where
  "isDigit ch = (let n = (of_char ch :: nat) in 48 \<le> n \<and> n \<le> 57)"

definition isIdentStart :: "char \<Rightarrow> bool" where
  "isIdentStart ch =
     (let n = (of_char ch :: nat) in (65 \<le> n \<and> n \<le> 90) \<or> (97 \<le> n \<and> n \<le> 122) \<or> n = 95)"

definition isWord :: "char \<Rightarrow> bool" where
  "isWord ch = (isIdentStart ch \<or> isDigit ch)"

definition isLineTerminator :: "char \<Rightarrow> bool" where
  "isLineTerminator ch = (let n = (of_char ch :: nat) in n = 10 \<or> n = 13)"

definition isSpace :: "char \<Rightarrow> bool" where
  "isSpace ch = (let n = (of_char ch :: nat) in (9 \<le> n \<and> n \<le> 13) \<or> n = 32 \<or> n = 160)"

section \<open>normalizeValue, coerceNumericLike, createContext\<close>

text \<open>\<^verbatim>\<open>Boolean(value)\<close>.\<close>

definition truthy :: "val \<Rightarrow> bool" where
  "truthy v =
     (case v of
        Undefined \<Rightarrow> False
      | Null \<Rightarrow> False
      | Bool b \<Rightarrow> b
      | Num n \<Rightarrow> n \<noteq> NaN \<and> n \<noteq> Fin 0
      | Str s \<Rightarrow> s \<noteq> []
      | IntegerHelper \<Rightarrow> True)"

text \<open>
  The built-in \<^verbatim>\<open>Number.isInteger\<close> and \<^verbatim>\<open>Math.trunc\<close> on numbers, and
  \<open>normalizeValue\<close>, which calls them as the host state has them.
\<close>

definition isInteger :: "jsnum \<Rightarrow> bool" where
  "isInteger n = (case n of Fin q \<Rightarrow> q = of_int \<lfloor>q\<rfloor> | _ \<Rightarrow> False)"

definition trunc :: "jsnum \<Rightarrow> jsnum" where
  "trunc n = (case n of Fin q \<Rightarrow> Fin (of_int (if 0 \<le> q then \<lfloor>q\<rfloor> else \<lceil>q\<rceil>)) | _ \<Rightarrow> n)"

definition normalizeValue :: "'h platform \<Rightarrow> 'h \<Rightarrow> val \<Rightarrow> val" where
  "normalizeValue P hst v =
     (case v of
        Num n \<Rightarrow> (if truthy (numberIsInteger P hst n) then v else mathTrunc P hst n)
      | _ \<Rightarrow> v)"

definition trim :: "string \<Rightarrow> string" where
  "trim s = rev (dropWhile isSpace (rev (dropWhile isSpace s)))"

text \<open>The test \<^verbatim>\<open>/^-?\d+(\.\d+)?$/\<close>.\<close>

definition numericLike :: "string \<Rightarrow> bool" where
  "numericLike s =
     (let s1 = (case s of [] \<Rightarrow> s | ch # r \<Rightarrow> if ch = CHR ''-'' then r else s);
          r1 = dropWhile isDigit s1
      in takeWhile isDigit s1 \<noteq> [] \<and>
         (case r1 of [] \<Rightarrow> True
          | ch # fr \<Rightarrow> ch = CHR ''.'' \<and> fr \<noteq> [] \<and> list_all isDigit fr))"

definition coerceNumericLike :: "'h platform \<Rightarrow> val \<Rightarrow> val" where
  "coerceNumericLike P v =
     (case v of
        Num n \<Rightarrow> v
      | Str s \<Rightarrow>
          (let trimmed = trim s in
           if trimmed \<noteq> [] \<and> numericLike trimmed
           then (let numeric = stringToNumber P trimmed in if numeric = NaN then v else Num numeric)
           else v)
      | _ \<Rightarrow> v)"

text \<open>
  \<open>createContext\<close> allocates the context object (\<^verbatim>\<open>Object.create(null)\<close>, so a missing
  name reads as \<open>Undefined\<close>), writes the builtins and then the caller's entries.
  The caller's mapping is a reference into the store (a reference the code holds is
  always to an allocated object: an index below the length of the store); \<open>None\<close>
  is the omitted argument, whose default \<^verbatim>\<open>{}\<close> has no entries. The entries are
  taken in the order of the list; \<^verbatim>\<open>Object.entries\<close> lists integer-like keys first,
  which changes no lookup.
\<close>

definition entries :: "store \<Rightarrow> ref option \<Rightarrow> (string \<times> val) list" where
  "entries st userContext = (case userContext of None \<Rightarrow> [] | Some a \<Rightarrow> st ! a)"

definition createContext :: "'h platform \<Rightarrow> 'h \<Rightarrow> store \<Rightarrow> ref option \<Rightarrow> store \<times> ref" where
  "createContext P hst st userContext =
     (let context = length st;
          st0 = st @ [[]];
          st1 = fold (\<lambda>(key, helper) s. writeProp s context key helper) BUILT_INS st0;
          st2 = fold (\<lambda>(key, v) s.
                        if truthy (hasOwnProperty P hst BUILT_INS key) then s
                        else writeProp s context key v)
                  (entries st userContext) st1
      in (st2, context))"

section \<open>evaluateExpression and interpolate\<close>

text \<open>
  Both functions replace every match of \<^verbatim>\<open>/\$([A-Za-z_][\w]*)/g\<close>, scanning from the
  left: at a dollar sign followed by an identifier start the longest run of word
  characters is the name, and scanning goes on after it.
\<close>

function replaceAll :: "(string \<Rightarrow> string) \<Rightarrow> string \<Rightarrow> string" where
  "replaceAll f [] = []"
| "replaceAll f (ch # cs) =
     (if ch = CHR ''$'' \<and> (case cs of [] \<Rightarrow> False | c1 # _ \<Rightarrow> isIdentStart c1)
      then f (takeWhile isWord cs) @ replaceAll f (dropWhile isWord cs)
      else ch # replaceAll f cs)"
  by pat_completeness auto
termination
  by (relation "measure (\<lambda>(f, s). length s)") (auto simp: le_imp_less_Suc length_dropWhile_le)

definition resolveCall :: "string \<Rightarrow> string" where
  "resolveCall name = ''__resolve('' @ [CHR 0x22] @ name @ [CHR 0x22] @ '')''"

definition evaluateExpression ::
  "'h platform \<Rightarrow> 'h \<Rightarrow> string \<Rightarrow> obj \<Rightarrow> (string + val) \<times> 'h" where
  "evaluateExpression P hst rawExpression context =
     (let replaced = replaceAll resolveCall rawExpression;
          resolve = (\<lambda>name. coerceNumericLike P (getProp context name))
      in runScript P hst replaced resolve)"

definition toString :: "'h platform \<Rightarrow> val \<Rightarrow> string" where
  "toString P v =
     (case v of
        Undefined \<Rightarrow> ''undefined''
      | Null \<Rightarrow> ''null''
      | Bool b \<Rightarrow> (if b then ''true'' else ''false'')
      | Num n \<Rightarrow> numberToString P n
      | Str s \<Rightarrow> s
      | IntegerHelper \<Rightarrow> ''[object Object]'')"

definition interpolate :: "'h platform \<Rightarrow> string \<Rightarrow> obj \<Rightarrow> string" where
  "interpolate P text context =
     replaceAll (\<lambda>name. let v = getProp context name in
                   if v = Undefined \<or> v = Null then [] else toString P v) text"

section \<open>The tokenizer\<close>

datatype token =
    TText string
  | TSet string
  | TIf string
  | TElseIf string
  | TElse
  | TEnd

fun indexIn :: "char \<Rightarrow> string \<Rightarrow> nat option" where
  "indexIn ch [] = None"
| "indexIn ch (x # xs) = (if x = ch then Some 0 else map_option Suc (indexIn ch xs))"

text \<open>\<^verbatim>\<open>template.indexOf(ch, cursor)\<close>; \<open>None\<close> is \<open>-1\<close>.\<close>

definition indexOf :: "string \<Rightarrow> char \<Rightarrow> nat \<Rightarrow> nat option" where
  "indexOf template ch cursor = map_option (\<lambda>i. cursor + i) (indexIn ch (drop cursor template))"

definition startsWith :: "string \<Rightarrow> string \<Rightarrow> nat \<Rightarrow> bool" where
  "startsWith template prefix pos = (take (length prefix) (drop pos template) = prefix)"

definition slice :: "string \<Rightarrow> nat \<Rightarrow> nat \<Rightarrow> string" where
  "slice template start end = take (end - start) (drop start template)"

text \<open>The loop of \<open>readParenthesized\<close>, from index \<open>i\<close> with the depth so far.\<close>

function readLoop :: "string \<Rightarrow> nat \<Rightarrow> nat \<Rightarrow> int \<Rightarrow> error + (string \<times> nat)" where
  "readLoop template startIndex i depth =
     (if i < length template then
        (let ch = template ! i in
         if ch = CHR ''('' then readLoop template startIndex (i + 1) (depth + 1)
         else if ch = CHR '')'' then
           (if depth - 1 = 0 then Inr (slice template (startIndex + 1) i, i + 1)
            else readLoop template startIndex (i + 1) (depth - 1))
         else readLoop template startIndex (i + 1) depth)
      else Inl (UnterminatedDirective startIndex))"
  by pat_completeness auto
termination
  by (relation "measure (\<lambda>(t, s, i, d). length t - i)") auto

declare readLoop.simps [simp del]

definition readParenthesized :: "string \<Rightarrow> nat \<Rightarrow> error + (string \<times> nat)" where
  "readParenthesized template startIndex = readLoop template startIndex startIndex 0"

definition pushText :: "string \<Rightarrow> token list \<Rightarrow> nat \<Rightarrow> nat \<Rightarrow> token list" where
  "pushText template tokens start end =
     (if end > start then tokens @ [TText (slice template start end)] else tokens)"

lemma readLoop_end: "readLoop t s i d = Inr (c, e) \<Longrightarrow> i < e"
proof (induction t s i d rule: readLoop.induct)
  case (1 template startIndex i depth)
  show ?case
  proof (cases "i < length template")
    case False
    with "1.prems" show ?thesis by (simp add: readLoop.simps)
  next
    case True
    note inb = this
    show ?thesis
    proof (cases "template ! i = CHR ''(''")
      case True
      with inb "1.prems" have "readLoop template startIndex (i + 1) (depth + 1) = Inr (c, e)"
        by (simp add: readLoop.simps [of template startIndex i])
      with "1.IH"(1) [OF inb refl True] show ?thesis by simp
    next
      case False
      note nopen = this
      show ?thesis
      proof (cases "template ! i = CHR '')''")
        case False
        with inb nopen "1.prems" have "readLoop template startIndex (i + 1) depth = Inr (c, e)"
          by (simp add: readLoop.simps [of template startIndex i])
        with "1.IH"(3) [OF inb refl nopen False] show ?thesis by simp
      next
        case True
        note close = this
        show ?thesis
        proof (cases "depth - 1 = 0")
          case True
          with inb nopen close "1.prems" show ?thesis
            by (simp add: readLoop.simps [of template startIndex i])
        next
          case False
          with inb nopen close "1.prems"
          have "readLoop template startIndex (i + 1) (depth - 1) = Inr (c, e)"
            by (simp add: readLoop.simps [of template startIndex i])
          with "1.IH"(2) [OF inb refl nopen close False] show ?thesis by simp
        qed
      qed
    qed
  qed
qed

lemma readParenthesized_end: "readParenthesized t s = Inr (c, e) \<Longrightarrow> s < e"
  unfolding readParenthesized_def by (rule readLoop_end)

lemma indexIn_bound: "indexIn ch xs = Some i \<Longrightarrow> i < length xs"
  by (induction xs arbitrary: i) (auto split: if_splits)

lemma indexOf_bound: "indexOf t ch cursor = Some h \<Longrightarrow> cursor \<le> h \<and> h < length t"
  unfolding indexOf_def by (auto dest!: indexIn_bound)

text \<open>The \<^verbatim>\<open>while\<close> loop of \<open>tokenize\<close>, from the cursor with the tokens so far.\<close>

function tokenizeLoop :: "string \<Rightarrow> nat \<Rightarrow> token list \<Rightarrow> error + token list" where
  "tokenizeLoop template cursor tokens =
     (if cursor < length template then
        (case indexOf template CHR ''#'' cursor of
           None \<Rightarrow> Inr (pushText template tokens cursor (length template))
         | Some hashIndex \<Rightarrow>
             (let tokens1 = pushText template tokens cursor hashIndex in
              if startsWith template ''#set('' hashIndex then
                (case readParenthesized template (hashIndex + 4) of
                   Inl e \<Rightarrow> Inl e
                 | Inr (content, endIndex) \<Rightarrow>
                     tokenizeLoop template endIndex (tokens1 @ [TSet content]))
              else if startsWith template ''#if('' hashIndex then
                (case readParenthesized template (hashIndex + 3) of
                   Inl e \<Rightarrow> Inl e
                 | Inr (content, endIndex) \<Rightarrow>
                     tokenizeLoop template endIndex (tokens1 @ [TIf content]))
              else if startsWith template ''#elseif('' hashIndex then
                (case readParenthesized template (hashIndex + 7) of
                   Inl e \<Rightarrow> Inl e
                 | Inr (content, endIndex) \<Rightarrow>
                     tokenizeLoop template endIndex (tokens1 @ [TElseIf content]))
              else if startsWith template ''#else'' hashIndex then
                tokenizeLoop template (hashIndex + 5) (tokens1 @ [TElse])
              else if startsWith template ''#end'' hashIndex then
                tokenizeLoop template (hashIndex + 4) (tokens1 @ [TEnd])
              else tokenizeLoop template (hashIndex + 1) (tokens1 @ [TText ''#''])))
      else Inr tokens)"
  by pat_completeness auto
termination
proof (relation "measure (\<lambda>(t, c, ts). length t - c)", goal_cases)
  case 1
  show ?case by simp
next
  case (2 template cursor tokens hashIndex tokens1 r content endIndex)
  then show ?case
    by (auto dest!: indexOf_bound readParenthesized_end)
next
  case (3 template cursor tokens hashIndex tokens1 r content endIndex)
  then show ?case
    by (auto dest!: indexOf_bound readParenthesized_end)
next
  case (4 template cursor tokens hashIndex tokens1 r content endIndex)
  then show ?case
    by (auto dest!: indexOf_bound readParenthesized_end)
next
  case (5 template cursor tokens hashIndex tokens1)
  then show ?case by (auto dest!: indexOf_bound)
next
  case (6 template cursor tokens hashIndex tokens1)
  then show ?case by (auto dest!: indexOf_bound)
next
  case (7 template cursor tokens hashIndex tokens1)
  then show ?case by (auto dest!: indexOf_bound)
qed

declare tokenizeLoop.simps [simp del]

definition tokenize :: "string \<Rightarrow> error + token list" where
  "tokenize template = tokenizeLoop template 0 []"

section \<open>The directive interpreter\<close>

text \<open>
  The match of \<^verbatim>\<open>/^\s*\$([A-Za-z_][\w]*)\s*=\s*(.+)$/\<close> against the body of a
  \<^verbatim>\<open>#set\<close>: the name and the expression, or \<open>None\<close> when there is no match. The
  dot does not match a line terminator and the final \<^verbatim>\<open>$\<close> is the end of the body.
  When only white space follows the equals sign, backtracking leaves its last
  character to the expression.
\<close>

definition matchSet :: "string \<Rightarrow> (string \<times> string) option" where
  "matchSet content =
     (case dropWhile isSpace content of
        [] \<Rightarrow> None
      | c0 # r0 \<Rightarrow>
          if c0 = CHR ''$'' \<and> (case r0 of [] \<Rightarrow> False | c1 # _ \<Rightarrow> isIdentStart c1) then
            (let variableName = takeWhile isWord r0 in
             case dropWhile isSpace (dropWhile isWord r0) of
               [] \<Rightarrow> None
             | c2 # r2 \<Rightarrow>
                 if c2 = CHR ''='' then
                   (let ws = takeWhile isSpace r2; expression = dropWhile isSpace r2 in
                    if expression \<noteq> [] then
                      (if list_ex isLineTerminator expression then None
                       else Some (variableName, expression))
                    else if ws \<noteq> [] \<and> \<not> isLineTerminator (last ws)
                      then Some (variableName, [last ws])
                    else None)
                 else None)
          else None)"

record frame =
  parentActive :: bool
  active :: bool
  branchSatisfied :: bool

text \<open>
  What the loop of \<open>render\<close> reads and writes: the store (it holds the context
  object), the host objects of the script runner, the frame stack (its top is the last
  element, as with \<^verbatim>\<open>push\<close> and \<^verbatim>\<open>pop\<close>) and the output fragments.
\<close>

record 'h state =
  objects :: store
  host :: 'h
  frameStack :: "frame list"
  outputs :: "string list"

definition isFrameActive :: "frame list \<Rightarrow> bool" where
  "isFrameActive fs = list_all active fs"

definition updateTop :: "frame list \<Rightarrow> frame \<Rightarrow> frame list" where
  "updateTop fs f = fs[length fs - 1 := f]"

text \<open>
  One turn of the \<^verbatim>\<open>for\<close> loop of \<open>render\<close>: the error thrown, if any, and the
  state after the token. \<open>context\<close> is the reference to the context object.
\<close>

fun step :: "'h platform \<Rightarrow> ref \<Rightarrow> 'h state \<Rightarrow> token \<Rightarrow> error option \<times> 'h state" where
  "step P context s (TText v) =
     (if isFrameActive (frameStack s)
      then (None, s\<lparr>outputs := outputs s @ [interpolate P v (objects s ! context)]\<rparr>)
      else (None, s))"
| "step P context s (TSet content) =
     (if \<not> isFrameActive (frameStack s) then (None, s)
      else
        (case matchSet content of
           None \<Rightarrow> (Some (UnableToParseSet content), s)
         | Some (variableName, expression) \<Rightarrow>
             if \<not> truthy (hasOwnProperty P (host s) BUILT_INS variableName) then
               (case evaluateExpression P (host s) expression (objects s ! context) of
                  (Inl m, hst) \<Rightarrow> (Some (EvaluationError m), s\<lparr>host := hst\<rparr>)
                | (Inr v, hst) \<Rightarrow>
                    (None, s\<lparr>objects := writeProp (objects s) context variableName
                                          (normalizeValue P hst v),
                             host := hst\<rparr>))
             else (None, s)))"
| "step P context s (TIf content) =
     (let parentActive = isFrameActive (frameStack s) in
      if parentActive then
        (case evaluateExpression P (host s) content (objects s ! context) of
           (Inl m, hst) \<Rightarrow> (Some (EvaluationError m), s\<lparr>host := hst\<rparr>)
         | (Inr v, hst) \<Rightarrow>
             (let conditionMet = truthy v in
              (None, s\<lparr>host := hst,
                       frameStack := frameStack s @
                         [\<lparr>parentActive = parentActive,
                           active = conditionMet \<and> parentActive,
                           branchSatisfied = conditionMet \<and> parentActive\<rparr>]\<rparr>)))
      else
        (let conditionMet = False in
         (None, s\<lparr>frameStack := frameStack s @
                    [\<lparr>parentActive = parentActive,
                      active = conditionMet \<and> parentActive,
                      branchSatisfied = conditionMet \<and> parentActive\<rparr>]\<rparr>)))"
| "step P context s (TElseIf content) =
     (if length (frameStack s) = 0 then (Some ElseifWithoutIf, s)
      else
        (let frame = last (frameStack s) in
         if \<not> parentActive frame then
           (None, s\<lparr>frameStack := updateTop (frameStack s) (frame\<lparr>active := False\<rparr>)\<rparr>)
         else if branchSatisfied frame then
           (None, s\<lparr>frameStack := updateTop (frameStack s) (frame\<lparr>active := False\<rparr>)\<rparr>)
         else
           (case evaluateExpression P (host s) content (objects s ! context) of
              (Inl m, hst) \<Rightarrow> (Some (EvaluationError m), s\<lparr>host := hst\<rparr>)
            | (Inr v, hst) \<Rightarrow>
                (let conditionMet = truthy v in
                 (None, s\<lparr>host := hst,
                          frameStack := updateTop (frameStack s)
                            (frame\<lparr>active := conditionMet, branchSatisfied := conditionMet\<rparr>)\<rparr>)))))"
| "step P context s TElse =
     (if length (frameStack s) = 0 then (Some ElseWithoutIf, s)
      else
        (let frame = last (frameStack s);
             shouldActivate = parentActive frame \<and> \<not> branchSatisfied frame
         in (None, s\<lparr>frameStack := updateTop (frameStack s)
                       (frame\<lparr>active := shouldActivate,
                              branchSatisfied := branchSatisfied frame \<or> shouldActivate\<rparr>)\<rparr>)))"
| "step P context s TEnd =
     (if length (frameStack s) = 0 then (Some EndWithoutIf, s)
      else (None, s\<lparr>frameStack := butlast (frameStack s)\<rparr>))"

text \<open>The loop over the tokens; it stops at the first error.\<close>

fun run :: "'h platform \<Rightarrow> ref \<Rightarrow> 'h state \<Rightarrow> token list \<Rightarrow> error option \<times> 'h state" where
  "run P context s [] = (None, s)"
| "run P context s (tok # toks) =
     (case step P context s tok of
        (Some e, s') \<Rightarrow> (Some e, s')
      | (None, s') \<Rightarrow> run P context s' toks)"

text \<open>
  \<open>render\<close>, given the host objects and the store at the call: the string or the
  error, with the store and the host objects at the return.
\<close>

definition render ::
  "'h platform \<Rightarrow> 'h \<Rightarrow> store \<Rightarrow> string \<Rightarrow> ref option \<Rightarrow> (error + string) \<times> store \<times> 'h" where
  "render P hst st template userContext =
     (let (st1, context) = createContext P hst st userContext in
      case tokenize template of
        Inl e \<Rightarrow> (Inl e, st1, hst)
      | Inr tokens \<Rightarrow>
          (case run P context \<lparr>objects = st1, host = hst, frameStack = [], outputs = []\<rparr> tokens of
             (Some e, s) \<Rightarrow> (Inl e, objects s, host s)
           | (None, s) \<Rightarrow>
               if length (frameStack s) > 0 then (Inl UnclosedIf, objects s, host s)
               else (Inr (concat (outputs s)), objects s, host s)))"

section \<open>renderTemplate and the optional external renderer\<close>

text \<open>
  \<open>velocityEngine\<close> is the module \<^verbatim>\<open>velocityjs\<close> when it could be loaded: its
  \<^verbatim>\<open>render\<close> takes the template and the context object and returns a value or throws
  (\<open>Inl\<close>, with the message).
\<close>

type_synonym engine = "string \<Rightarrow> obj \<Rightarrow> string + val"

record options =
  preferVelocity :: bool

definition renderWithVelocity ::
  "'h platform \<Rightarrow> engine option \<Rightarrow> 'h \<Rightarrow> store \<Rightarrow> string \<Rightarrow> ref option \<Rightarrow>
     (string + val) \<times> store" where
  "renderWithVelocity P velocityEngine hst st template userContext =
     (case velocityEngine of
        None \<Rightarrow> (Inr Null, st)
      | Some eng \<Rightarrow>
          (let (st1, context) = createContext P hst st userContext
           in (eng template (st1 ! context), st1)))"

definition renderTemplate ::
  "'h platform \<Rightarrow> engine option \<Rightarrow> 'h \<Rightarrow> store \<Rightarrow> string \<Rightarrow> ref option \<Rightarrow> options \<Rightarrow>
     (error + val) \<times> store \<times> 'h" where
  "renderTemplate P velocityEngine hst st template userContext opts =
     (let builtin = (\<lambda>st'. case render P hst st' template userContext of
                             (r, st'', hst') \<Rightarrow> (map_sum id Str r, st'', hst'))
      in
      if preferVelocity opts then
        (case renderWithVelocity P velocityEngine hst st template userContext of
           (Inl m, st1) \<Rightarrow> (Inl (VelocityError m), st1, hst)
         | (Inr rendered, st1) \<Rightarrow>
             if rendered \<noteq> Null \<and> rendered \<noteq> Undefined then (Inr rendered, st1, hst)
             else builtin st1)
      else builtin st)"

text \<open>
  A small platform for concrete runs. Its script runner knows the literals
  \<^verbatim>\<open>true\<close> and \<^verbatim>\<open>false\<close> and four quotients and throws on every other text; it
  never calls the resolver, it replaces no host function, and it counts its calls in
  the host state. The quotients are the exact ones (JavaScript gives the nearest
  double, \<open>3.3333333333333335\<close> for \<^verbatim>\<open>10 / 3\<close>, with the same integer part).
  Integers are printed in plain decimal, as JavaScript prints them below \<open>10\<^sup>2\<^sup>1\<close>;
  the concrete runs print no other finite number and convert no string to a number.
\<close>

function showNat :: "nat \<Rightarrow> string" where
  "showNat n =
     (if n < 10 then [char_of (48 + n)] else showNat (n div 10) @ [char_of (48 + n mod 10)])"
  by pat_completeness auto
termination
  by (relation "measure id") auto

declare showNat.simps [simp del]

definition showNumber :: "jsnum \<Rightarrow> string" where
  "showNumber n =
     (case n of
        NaN \<Rightarrow> ''NaN''
      | PosInf \<Rightarrow> ''Infinity''
      | NegInf \<Rightarrow> ''-Infinity''
      | Fin q \<Rightarrow>
          if q = of_int \<lfloor>q\<rfloor>
          then (if \<lfloor>q\<rfloor> < 0 then ''-'' @ showNat (nat (- \<lfloor>q\<rfloor>)) else showNat (nat \<lfloor>q\<rfloor>))
          else ''(fraction)'')"

definition literalScript :: "nat \<Rightarrow> string \<Rightarrow> (string \<Rightarrow> val) \<Rightarrow> (string + val) \<times> nat" where
  "literalScript n script resolve =
     (if script = ''true'' then (Inr (Bool True), Suc n)
      else if script = ''false'' then (Inr (Bool False), Suc n)
      else if script = ''0 / 0'' then (Inr (Num NaN), Suc n)
      else if script = ''1 / 2'' then (Inr (Num (Fin (1 / 2))), Suc n)
      else if script = ''10 / 3'' then (Inr (Num (Fin (10 / 3))), Suc n)
      else if script = ''-7 / 2'' then (Inr (Num (Fin (- 7 / 2))), Suc n)
      else (Inl (''cannot evaluate: '' @ script), Suc n))"

definition literalPlatform :: "nat platform" where
  "literalPlatform =
     \<lparr>runScript = literalScript, numberToString = showNumber, stringToNumber = (\<lambda>s. NaN),
      numberIsInteger = (\<lambda>h n. Bool (isInteger n)),
      mathTrunc = (\<lambda>h n. Num (trunc n)),
      hasOwnProperty = (\<lambda>h ob k. Bool (hasOwn ob k))\<rparr>"

text \<open>
  A second platform, whose scripts can replace host functions as scripts of the real
  one can. Its host state says whether \<^verbatim>\<open>Math.trunc\<close> and
  \<^verbatim>\<open>Object.prototype.hasOwnProperty\<close> have been replaced by \<^verbatim>\<open>Math.abs\<close>. Called
  as \<^verbatim>\<open>hasOwnProperty.call(BUILT_INS, key)\<close>, \<^verbatim>\<open>Math.abs\<close> converts the key, a name,
  to a number and returns NaN. The runner knows the two assignments that replace the
  functions, a call of \<^verbatim>\<open>Math.trunc\<close>, and two literals.
\<close>

record hostObjects =
  truncReplaced :: bool
  hasOwnReplaced :: bool

definition absNum :: "jsnum \<Rightarrow> jsnum" where
  "absNum n = (case n of Fin q \<Rightarrow> Fin \<bar>q\<bar> | PosInf \<Rightarrow> PosInf | NegInf \<Rightarrow> PosInf | NaN \<Rightarrow> NaN)"

definition leakyScript ::
  "hostObjects \<Rightarrow> string \<Rightarrow> (string \<Rightarrow> val) \<Rightarrow> (string + val) \<times> hostObjects" where
  "leakyScript h script resolve =
     (if script = ''(Math.trunc = Math.abs, 0)'' then (Inr (Num (Fin 0)), h\<lparr>truncReplaced := True\<rparr>)
      else if script = ''(Math.constructor.prototype.hasOwnProperty = Math.abs, 0)''
        then (Inr (Num (Fin 0)), h\<lparr>hasOwnReplaced := True\<rparr>)
      else if script = ''Math.trunc(-7 / 2)''
        then (Inr (Num (if truncReplaced h then absNum (Fin (- 7 / 2)) else trunc (Fin (- 7 / 2)))), h)
      else if script = ''-7 / 2'' then (Inr (Num (Fin (- 7 / 2))), h)
      else if script = ''0'' then (Inr (Num (Fin 0)), h)
      else (Inl (''cannot evaluate: '' @ script), h))"

definition leakyPlatform :: "hostObjects platform" where
  "leakyPlatform =
     \<lparr>runScript = leakyScript, numberToString = showNumber, stringToNumber = (\<lambda>s. NaN),
      numberIsInteger = (\<lambda>h n. Bool (isInteger n)),
      mathTrunc = (\<lambda>h n. Num (if truncReplaced h then absNum n else trunc n)),
      hasOwnProperty = (\<lambda>h ob k. if hasOwnReplaced h then Num NaN else Bool (hasOwn ob k))\<rparr>"

section \<open>Notions used to state the properties\<close>

text \<open>
  The structural errors, and the one that \<^verbatim>\<open>#elseif\<close>, \<^verbatim>\<open>#else\<close> and \<^verbatim>\<open>#end\<close>
  each throw on an empty frame stack.
\<close>

definition isStructural :: "error \<Rightarrow> bool" where
  "isStructural e =
     (e = ElseifWithoutIf \<or> e = ElseWithoutIf \<or> e = EndWithoutIf \<or> e = UnclosedIf)"

fun closerError :: "token \<Rightarrow> error option" where
  "closerError (TElseIf content) = Some ElseifWithoutIf"
| "closerError TElse = Some ElseWithoutIf"
| "closerError TEnd = Some EndWithoutIf"
| "closerError (TText v) = None"
| "closerError (TSet content) = None"
| "closerError (TIf content) = None"

text \<open>
  The frame at index \<open>i\<close> of the stack stays open along a run: no token of the run
  throws, and the stack is deeper than \<open>i\<close> before and after each of them.
\<close>

fun staysOpen :: "'h platform \<Rightarrow> ref \<Rightarrow> nat \<Rightarrow> 'h state \<Rightarrow> token list \<Rightarrow> bool" where
  "staysOpen P context i s [] = (i < length (frameStack s))"
| "staysOpen P context i s (tok # toks) =
     (i < length (frameStack s) \<and>
      (case step P context s tok of
         (Some e, s') \<Rightarrow> False
       | (None, s') \<Rightarrow> staysOpen P context i s' toks))"

text \<open>
  The host functions are the built-in ones in a host state: no script has replaced
  \<^verbatim>\<open>Number.isInteger\<close> or \<^verbatim>\<open>Math.trunc\<close>, and none has replaced
  \<^verbatim>\<open>hasOwnProperty\<close>. The guard stays intact along a run when it is intact before
  each of its tokens and after the last.
\<close>

definition numbersIntact :: "'h platform \<Rightarrow> 'h \<Rightarrow> bool" where
  "numbersIntact P hst =
     (\<forall>n. numberIsInteger P hst n = Bool (isInteger n) \<and> mathTrunc P hst n = Num (trunc n))"



section \<open>Properties of the store and of the builtin binding\<close>

lemma getProp_setProp: "getProp (setProp ob k v) k' = (if k' = k then v else getProp ob k')"
  by (simp add: getProp_def setProp_def update_conv')

lemma length_writeProp: "length (writeProp st a k v) = length st"
  by (simp add: writeProp_def)

lemma writeProp_other: "a \<noteq> c \<Longrightarrow> writeProp st c k v ! a = st ! a"
  by (simp add: writeProp_def)

lemma writeProp_same: "c < length st \<Longrightarrow> writeProp st c k v ! c = setProp (st ! c) k v"
  by (simp add: writeProp_def)

lemma truthy_Bool: "truthy (Bool b) = b"
  by (simp add: truthy_def)


lemma not_builtin_name: "\<not> hasOwn BUILT_INS k \<longleftrightarrow> k \<noteq> ''Integer''"
  by (simp add: hasOwn_def BUILT_INS_def)

lemma step_length_objects: "length (objects (snd (step P c s tok))) = length (objects s)"
  by (cases tok) (auto simp: Let_def length_writeProp split: option.splits prod.splits sum.splits)

lemma step_objects_other: "a \<noteq> c \<Longrightarrow> objects (snd (step P c s tok)) ! a = objects s ! a"
  by (cases tok) (auto simp: Let_def writeProp_other split: option.splits prod.splits sum.splits)


lemma run_length_objects: "length (objects (snd (run P c s toks))) = length (objects s)"
proof (induction toks arbitrary: s)
  case Nil
  show ?case by simp
next
  case (Cons tok toks)
  obtain eo s' where st: "step P c s tok = (eo, s')" by (cases "step P c s tok")
  have len: "length (objects s') = length (objects s)"
    using step_length_objects [of P c s tok] st by simp
  show ?case
  proof (cases eo)
    case None
    with st Cons.IH [of s'] len show ?thesis by simp
  next
    case (Some e)
    with st len show ?thesis by simp
  qed
qed

lemma run_objects_other: "a \<noteq> c \<Longrightarrow> objects (snd (run P c s toks)) ! a = objects s ! a"
proof (induction toks arbitrary: s)
  case Nil
  show ?case by simp
next
  case (Cons tok toks)
  obtain eo s' where st: "step P c s tok = (eo, s')" by (cases "step P c s tok")
  have same: "objects s' ! a = objects s ! a"
    using step_objects_other [OF Cons.prems, of P s tok] st by simp
  show ?case
  proof (cases eo)
    case None
    with st Cons.IH [OF Cons.prems, of s'] same show ?thesis by simp
  next
    case (Some e)
    with st same show ?thesis by simp
  qed
qed


lemma fold_entries_inv:
  "length st = Suc c \<Longrightarrow>
   length (fold (\<lambda>(key, v) s. if truthy (hasOwnProperty P hst BUILT_INS key) then s
                               else writeProp s c key v) es st) = Suc c
   \<and> (\<forall>a. a \<noteq> c \<longrightarrow>
        fold (\<lambda>(key, v) s. if truthy (hasOwnProperty P hst BUILT_INS key) then s
                             else writeProp s c key v) es st ! a = st ! a)"
proof (induction es arbitrary: st)
  case Nil
  show ?case using Nil by simp
next
  case (Cons e es)
  obtain key v where e: "e = (key, v)" by (cases e)
  let ?st' = "if truthy (hasOwnProperty P hst BUILT_INS key) then st else writeProp st c key v"
  have len: "length ?st' = Suc c" using Cons.prems by (simp add: length_writeProp)
  have other: "\<And>a. a \<noteq> c \<Longrightarrow> ?st' ! a = st ! a" by (simp add: writeProp_other)
  from Cons.IH [OF len] other show ?case by (simp add: e)
qed


lemma createContext_ref: "snd (createContext P hst st uc) = length st"
  by (simp add: createContext_def Let_def)


lemma createContext_other: "a < length st \<Longrightarrow> fst (createContext P hst st uc) ! a = st ! a"
  using fold_entries_inv [of "writeProp (st @ [[]]) (length st) ''Integer'' IntegerHelper"
      "length st" P hst "entries st uc"]
  by (simp add: createContext_def Let_def BUILT_INS_def length_writeProp writeProp_other nth_append)


lemma render_store:
  "fst (snd (render P hst st template uc)) =
     (case tokenize template of
        Inl e \<Rightarrow> fst (createContext P hst st uc)
      | Inr tokens \<Rightarrow>
          objects (snd (run P (length st)
            \<lparr>objects = fst (createContext P hst st uc), host = hst, frameStack = [], outputs = []\<rparr>
            tokens)))"
  using createContext_ref [of P hst st uc]
  by (auto simp: render_def Let_def split: prod.splits sum.splits option.splits)

lemma render_keeps_existing_objects:
  "a < length st \<Longrightarrow>
   fst (createContext P hst st userContext) ! a = st ! a \<and>
   fst (snd (render P hst st template userContext)) ! a = st ! a"
proof -
  assume a: "a < length st"
  then have ne: "a \<noteq> length st" by simp
  have c: "fst (createContext P hst st userContext) ! a = st ! a"
    using a by (rule createContext_other)
  have "fst (snd (render P hst st template userContext)) ! a = st ! a"
  proof (cases "tokenize template")
    case (Inl e)
    then show ?thesis using c by (simp add: render_store)
  next
    case (Inr tokens)
    then show ?thesis
      using c run_objects_other [OF ne, of P
          "\<lparr>objects = fst (createContext P hst st userContext), host = hst, frameStack = [], outputs = []\<rparr>"
          tokens]
      by (simp add: render_store)
  qed
  with c show ?thesis by simp
qed

section \<open>Properties of the token loop\<close>

lemma run_append:
  "run P c s (pre @ toks) =
     (case run P c s pre of (Some e, s') \<Rightarrow> (Some e, s') | (None, s') \<Rightarrow> run P c s' toks)"
proof (induction pre arbitrary: s)
  case Nil
  show ?case by simp
next
  case (Cons tok pre)
  obtain eo s1 where st: "step P c s tok = (eo, s1)" by (cases "step P c s tok")
  show ?case
  proof (cases eo)
    case None
    with st Cons.IH [of s1] show ?thesis by simp
  next
    case (Some e)
    with st show ?thesis by simp
  qed
qed

lemma step_structural:
  "isStructural e \<Longrightarrow>
   (fst (step P c s tok) = Some e) = (frameStack s = [] \<and> closerError tok = Some e)"
  by (cases tok)
    (auto simp: isStructural_def Let_def split: option.splits prod.splits sum.splits)

lemma step_closer_empty:
  "frameStack s = [] \<Longrightarrow> closerError tok = Some e \<Longrightarrow> step P c s tok = (Some e, s)"
  by (cases tok) auto

lemma run_structural_only_if:
  "isStructural e \<Longrightarrow> fst (run P c s toks) = Some e \<Longrightarrow>
   \<exists>pre tok post s'. toks = pre @ tok # post \<and> run P c s pre = (None, s') \<and>
      frameStack s' = [] \<and> closerError tok = Some e"
proof (induction toks arbitrary: s)
  case Nil
  then show ?case by simp
next
  case (Cons t ts)
  obtain eo s1 where st: "step P c s t = (eo, s1)" by (cases "step P c s t")
  show ?case
  proof (cases eo)
    case (Some e')
    with st Cons.prems(2) have "fst (step P c s t) = Some e" by simp
    with step_structural [OF Cons.prems(1), of P c s t]
    have "frameStack s = []" and "closerError t = Some e" by simp_all
    then have "t # ts = [] @ t # ts \<and> run P c s [] = (None, s) \<and>
        frameStack s = [] \<and> closerError t = Some e" by simp
    then show ?thesis by blast
  next
    case None
    with st Cons.prems(2) have "fst (run P c s1 ts) = Some e" by simp
    from Cons.IH [OF Cons.prems(1) this]
    obtain pre tok post s' where
      h: "ts = pre @ tok # post" "run P c s1 pre = (None, s')" "frameStack s' = []"
         "closerError tok = Some e" by blast
    from h(1) have "t # ts = (t # pre) @ tok # post" by simp
    moreover from h(2) st None have "run P c s (t # pre) = (None, s')" by simp
    ultimately show ?thesis using h(3,4) by blast
  qed
qed

lemma run_structural_if:
  "toks = pre @ tok # post \<Longrightarrow> run P c s pre = (None, s') \<Longrightarrow> frameStack s' = [] \<Longrightarrow>
   closerError tok = Some e \<Longrightarrow> run P c s toks = (Some e, s')"
  by (simp add: run_append step_closer_empty)

lemma closerError_structural: "closerError tok = Some e \<Longrightarrow> isStructural e"
  by (cases tok) (auto simp: isStructural_def)

lemma closerError_not_unclosed: "closerError tok \<noteq> Some UnclosedIf"
  by (cases tok) auto

lemma step_not_unclosed: "fst (step P c s tok) \<noteq> Some UnclosedIf"
  using step_structural [of UnclosedIf P c s tok] closerError_not_unclosed [of tok]
  by (simp add: isStructural_def)

lemma run_not_unclosed: "fst (run P c s toks) \<noteq> Some UnclosedIf"
proof (induction toks arbitrary: s)
  case Nil
  show ?case by simp
next
  case (Cons t ts)
  obtain eo s1 where st: "step P c s t = (eo, s1)" by (cases "step P c s t")
  show ?case
  proof (cases eo)
    case None
    with st Cons.IH [of s1] show ?thesis by simp
  next
    case (Some e')
    with st step_not_unclosed [of P c s t] show ?thesis by simp
  qed
qed

lemma render_result:
  "fst (render P hst st template uc) =
     (case tokenize template of
        Inl e \<Rightarrow> Inl e
      | Inr tokens \<Rightarrow>
          (case run P (length st)
             \<lparr>objects = fst (createContext P hst st uc), host = hst, frameStack = [], outputs = []\<rparr>
             tokens of
             (Some e, s) \<Rightarrow> Inl e
           | (None, s) \<Rightarrow> if frameStack s \<noteq> [] then Inl UnclosedIf else Inr (concat (outputs s))))"
  using createContext_ref [of P hst st uc]
  by (auto simp: render_def Let_def split: prod.splits sum.splits option.splits)

lemma readLoop_error: "readLoop t s i d = Inl e \<Longrightarrow> e = UnterminatedDirective s"
proof (induction t s i d rule: readLoop.induct)
  case (1 template startIndex i depth)
  from "1.prems" "1.IH" show ?case
    by (subst (asm) readLoop.simps) (auto simp: Let_def split: if_splits)
qed

lemma readParenthesized_error:
  "readParenthesized t s = Inl e \<Longrightarrow> e = UnterminatedDirective s"
  unfolding readParenthesized_def by (rule readLoop_error)

lemma tokenizeLoop_error:
  "tokenizeLoop t c toks = Inl e \<Longrightarrow> \<exists>n. e = UnterminatedDirective n"
proof (induction t c toks rule: tokenizeLoop.induct)
  case (1 template cursor tokens)
  from "1.prems" "1.IH" show ?case
    by (subst (asm) tokenizeLoop.simps)
      (auto simp: Let_def split: if_splits option.splits sum.splits
            dest: readParenthesized_error)
qed

lemma tokenize_not_structural: "tokenize t = Inl e \<Longrightarrow> \<not> isStructural e"
  unfolding tokenize_def by (auto dest!: tokenizeLoop_error simp: isStructural_def)

section \<open>Properties of the frame stack\<close>

lemma length_updateTop: "length (updateTop fs f) = length fs"
  by (simp add: updateTop_def)

lemma updateTop_nth:
  "i < length fs \<Longrightarrow> updateTop fs f ! i = (if Suc i = length fs then f else fs ! i)"
  by (auto simp: updateTop_def nth_list_update)

lemma last_nth_top: "length fs = Suc i \<Longrightarrow> last fs = fs ! i"
  by (cases fs rule: rev_cases) (auto simp: nth_append)

lemma last_nth_top': "Suc i = length fs \<Longrightarrow> last fs = fs ! i"
  using last_nth_top [of fs i] by simp

lemma step_branch_flag:
  assumes "step P c s0 tok0 = (None, s1)"
    and "tok0 = TIf c0 \<or> tok0 = TElseIf c0 \<or> tok0 = TElse"
    and "length (frameStack s1) = Suc i"
    and "active (frameStack s1 ! i)"
  shows "branchSatisfied (frameStack s1 ! i)"
proof -
  from assms(2) consider "tok0 = TIf c0" | "tok0 = TElseIf c0" | "tok0 = TElse" by blast
  then show ?thesis
  proof cases
    case 1
    with assms(1,3,4) show ?thesis
      by (auto simp: Let_def nth_append split: if_splits prod.splits sum.splits)
  next
    case 2
    with assms(1) have ne: "frameStack s0 \<noteq> []" by (auto split: if_splits)
    from 2 assms(1) have len: "length (frameStack s1) = length (frameStack s0)"
      by (auto simp: Let_def length_updateTop split: if_splits prod.splits sum.splits)
    with assms(3) have i: "i < length (frameStack s0)" "Suc i = length (frameStack s0)" by simp_all
    from 2 assms(1,4) ne i show ?thesis
      by (auto simp: Let_def updateTop_nth split: if_splits prod.splits sum.splits)
  next
    case 3
    with assms(1) have ne: "frameStack s0 \<noteq> []" by (auto split: if_splits)
    from 3 assms(1) have len: "length (frameStack s1) = length (frameStack s0)"
      by (auto simp: Let_def length_updateTop split: if_splits)
    with assms(3) have i: "i < length (frameStack s0)" "Suc i = length (frameStack s0)" by simp_all
    from 3 assms(1,4) ne i show ?thesis
      by (auto simp: Let_def updateTop_nth split: if_splits)
  qed
qed

lemma step_keeps_flag:
  assumes "step P c s tok = (None, s')"
    and "i < length (frameStack s)" and "i < length (frameStack s')"
    and "branchSatisfied (frameStack s ! i)"
  shows "branchSatisfied (frameStack s' ! i)"
proof (cases tok)
  case (TText v)
  with assms show ?thesis by (auto split: if_splits)
next
  case (TSet content)
  with assms show ?thesis
    by (auto simp: Let_def split: if_splits option.splits prod.splits sum.splits)
next
  case (TIf content)
  with assms show ?thesis
    by (auto simp: Let_def nth_append split: if_splits prod.splits sum.splits)
next
  case (TElseIf content)
  with assms show ?thesis
    by (auto simp: Let_def updateTop_nth last_nth_top' split: if_splits prod.splits sum.splits)
next
  case TElse
  with assms show ?thesis
    by (auto simp: Let_def updateTop_nth last_nth_top' split: if_splits)
next
  case TEnd
  with assms show ?thesis
    by (auto simp: nth_butlast split: if_splits)
qed

lemma run_keeps_flag:
  "staysOpen P c i s toks \<Longrightarrow> run P c s toks = (None, s') \<Longrightarrow>
   branchSatisfied (frameStack s ! i) \<Longrightarrow>
   branchSatisfied (frameStack s' ! i) \<and> i < length (frameStack s')"
proof (induction toks arbitrary: s)
  case Nil
  then show ?case by simp
next
  case (Cons t ts)
  obtain eo s1 where st: "step P c s t = (eo, s1)" by (cases "step P c s t")
  from Cons.prems(1) st have eo: "eo = None" and i: "i < length (frameStack s)"
    and open1: "staysOpen P c i s1 ts"
    by (auto split: option.splits)
  from open1 have i1: "i < length (frameStack s1)" by (cases ts) auto
  from st eo have "step P c s t = (None, s1)" by simp
  from step_keeps_flag [OF this i i1 Cons.prems(3)]
  have flag: "branchSatisfied (frameStack s1 ! i)" .
  from Cons.prems(2) st eo have "run P c s1 ts = (None, s')" by simp
  from Cons.IH [OF open1 this flag] show ?case .
qed

lemma step_satisfied_top:
  assumes "length (frameStack s) = Suc i" and "branchSatisfied (frameStack s ! i)"
    and "tok = TElseIf content \<or> tok = TElse"
  shows "\<exists>s'. step P c s tok = (None, s') \<and> length (frameStack s') = Suc i \<and>
           \<not> active (frameStack s' ! i) \<and> branchSatisfied (frameStack s' ! i) \<and>
           host s' = host s"
proof -
  from assms(1) have ne: "frameStack s \<noteq> []" by auto
  from assms(1,2) have top: "branchSatisfied (last (frameStack s))" by (simp add: last_nth_top)
  from assms(1) have i: "i < length (frameStack s)" by simp
  from assms(3) show ?thesis
  proof
    assume "tok = TElseIf content"
    with ne top i assms(1) show ?thesis
      by (auto simp: Let_def updateTop_nth length_updateTop)
  next
    assume "tok = TElse"
    with ne top i assms(1) show ?thesis
      by (auto simp: Let_def updateTop_nth length_updateTop)
  qed
qed

section \<open>Properties of normalizeValue\<close>

lemma normalizeValue_intact:
  "numbersIntact P hst \<Longrightarrow>
   normalizeValue P hst (Num n) = (if isInteger n then Num n else Num (trunc n))"
  by (simp add: normalizeValue_def numbersIntact_def truthy_Bool)

lemma normalizeValue_not_number: "(\<forall>n. v \<noteq> Num n) \<Longrightarrow> normalizeValue P hst v = v"
  by (cases v) (simp_all add: normalizeValue_def)

lemma normalizeValue_finite:
  assumes intact: "numbersIntact P hst"
  shows "\<exists>z::int. normalizeValue P hst (Num (Fin q)) = Num (Fin (of_int z)) \<and>
     \<bar>of_int z\<bar> \<le> \<bar>q\<bar> \<and> \<bar>q\<bar> < \<bar>of_int z\<bar> + 1 \<and> 0 \<le> of_int z * q"
proof (cases "q = of_int \<lfloor>q\<rfloor>")
  case True
  then have "normalizeValue P hst (Num (Fin q)) = Num (Fin (of_int \<lfloor>q\<rfloor>))"
    using intact by (simp add: normalizeValue_intact isInteger_def)
  moreover from True have "\<bar>of_int \<lfloor>q\<rfloor>\<bar> \<le> \<bar>q\<bar>" "\<bar>q\<bar> < \<bar>of_int \<lfloor>q\<rfloor>\<bar> + 1"
    by simp_all
  moreover from True have "0 \<le> of_int \<lfloor>q\<rfloor> * q"
    by (metis zero_le_square)
  ultimately show ?thesis by blast
next
  case False
  show ?thesis
  proof (cases "0 \<le> q")
    case True
    with False have nv: "normalizeValue P hst (Num (Fin q)) = Num (Fin (of_int \<lfloor>q\<rfloor>))"
      using intact by (simp add: normalizeValue_intact isInteger_def trunc_def)
    from True have fl: "0 \<le> \<lfloor>q\<rfloor>" by simp
    have "of_int \<lfloor>q\<rfloor> \<le> q" "q < of_int \<lfloor>q\<rfloor> + 1" by linarith+
    with True fl have "\<bar>of_int \<lfloor>q\<rfloor>\<bar> \<le> \<bar>q\<bar>" "\<bar>q\<bar> < \<bar>of_int \<lfloor>q\<rfloor>\<bar> + 1"
      "0 \<le> of_int \<lfloor>q\<rfloor> * q"
      by simp_all
    with nv show ?thesis by blast
  next
    case neg: False
    with False have nv: "normalizeValue P hst (Num (Fin q)) = Num (Fin (of_int \<lceil>q\<rceil>))"
      using intact by (simp add: normalizeValue_intact isInteger_def trunc_def)
    from neg have ce: "\<lceil>q\<rceil> \<le> 0" by (simp add: ceiling_le_zero)
    have b: "q \<le> of_int \<lceil>q\<rceil>" "of_int \<lceil>q\<rceil> - 1 < q" by linarith+
    from ce have ce': "(of_int \<lceil>q\<rceil> :: rat) \<le> 0" by simp
    from neg have q0: "q \<le> 0" by simp
    from b ce' q0 have "\<bar>of_int \<lceil>q\<rceil>\<bar> \<le> \<bar>q\<bar>" "\<bar>q\<bar> < \<bar>of_int \<lceil>q\<rceil>\<bar> + 1"
      by linarith+
    moreover from ce' q0 have "0 \<le> of_int \<lceil>q\<rceil> * q"
      by (rule mult_nonpos_nonpos)
    ultimately show ?thesis using nv by blast
  qed
qed

lemma normalizeValue_integer:
  "numbersIntact P hst \<Longrightarrow>
   normalizeValue P hst (Num (Fin (of_int z))) = Num (Fin (of_int z))"
  by (simp add: normalizeValue_intact isInteger_def)

lemma normalizeValue_other:
  "numbersIntact P hst \<Longrightarrow> (\<forall>q. v \<noteq> Num (Fin q)) \<Longrightarrow> normalizeValue P hst v = v"
proof (cases v)
  case (Num n)
  assume intact: "numbersIntact P hst" and nofin: "\<forall>q. v \<noteq> Num (Fin q)"
  from Num nofin have "trunc n = n" by (cases n) (simp_all add: trunc_def)
  with Num intact show ?thesis by (simp add: normalizeValue_intact)
qed (simp_all add: normalizeValue_def)

lemma builtin_truncation_examples:
  "isInteger (Fin (10 / 3)) = False" "trunc (Fin (10 / 3)) = Fin 3"
  "isInteger (Fin (- 7 / 2)) = False" "trunc (Fin (- 7 / 2)) = Fin (- 3)"
  by code_simp+

lemma normalizeValue_examples:
  "numbersIntact P hst \<Longrightarrow> normalizeValue P hst (Num (Fin (10 / 3))) = Num (Fin 3)"
  "numbersIntact P hst \<Longrightarrow> normalizeValue P hst (Num (Fin (- 7 / 2))) = Num (Fin (- 3))"
  by (simp_all only: normalizeValue_intact builtin_truncation_examples if_False)

lemma truthy_fraction: "truthy (Num (Fin (1 / 2)))"
  by (simp add: truthy_def)

lemma step_set_stores:
  assumes "isFrameActive (frameStack s)"
    and "matchSet content = Some (variableName, expression)"
    and "\<not> truthy (hasOwnProperty P (host s) BUILT_INS variableName)"
    and "evaluateExpression P (host s) expression (objects s ! c) = (Inr v, hst)"
  shows "step P c s (TSet content) =
     (None, s\<lparr>objects := writeProp (objects s) c variableName (normalizeValue P hst v),
              host := hst\<rparr>)"
  using assms by simp

lemma numbersIntact_literal: "numbersIntact literalPlatform h"
  by (simp add: numbersIntact_def literalPlatform_def)




section \<open>Concrete runs of the tokenizer, and renderTemplate without an engine\<close>

lemma tokenize_spaced:
  "tokenize ''#if (true)x#end'' = Inr [TText ''#'', TText ''if (true)x'', TEnd]"
  "tokenize ''#if(true)x#end'' = Inr [TIf ''true'', TText ''x'', TEnd]"
  "tokenize ''#set ($v = true)'' = Inr [TText ''#'', TText ''set ($v = true)'']"
  "tokenize ''#set($v = true)'' = Inr [TSet ''$v = true'']"
  "tokenize ''#elseif (true)'' = Inr [TElse, TText ''if (true)'']"
  "tokenize ''#elseif(true)'' = Inr [TElseIf ''true'']"
  by code_simp+

lemma renderTemplate_without_engine:
  "fst (renderTemplate P None hst st template userContext opts) =
     map_sum id Str (fst (render P hst st template userContext))"
  by (simp add: renderTemplate_def renderWithVelocity_def split: prod.splits)

lemma renderTemplate_engine_null:
  assumes "preferVelocity opts"
    and "createContext P hst st userContext = (st1, c)"
    and "eng template (st1 ! c) = Inr r"
    and "r = Null \<or> r = Undefined"
  shows "fst (renderTemplate P (Some eng) hst st template userContext opts) =
     map_sum id Str (fst (render P hst st1 template userContext))"
  using assms
  by (auto simp: renderTemplate_def renderWithVelocity_def split: prod.splits)

lemma evaluateExpression_script:
  "evaluateExpression P h e ctx =
     runScript P h (replaceAll resolveCall e) (\<lambda>name. coerceNumericLike P (getProp ctx name))"
  by (simp add: evaluateExpression_def)

section \<open>The claims\<close>

text \<open>
  Claim C9. \<open>render\<close> and \<open>createContext\<close> never change the caller's mapping.
  The caller's mapping is the object at \<open>u\<close>, allocated before the call. The context
  object is a new one (its reference is not \<open>u\<close>), and after \<open>createContext\<close> and
  after \<open>render\<close>, whether it returns a string or throws, the object at \<open>u\<close> is the
  one it was before the call; the builtins and every \<^verbatim>\<open>#set\<close> were written elsewhere.
\<close>

theorem caller_mapping_not_mutated:
  assumes "u < length st"
  shows "snd (createContext P hst st (Some u)) \<noteq> u \<and>
         fst (createContext P hst st (Some u)) ! u = st ! u \<and>
         fst (snd (render P hst st template (Some u))) ! u = st ! u"
proof -
  have "snd (createContext P hst st (Some u)) \<noteq> u"
    using assms by (simp add: createContext_ref)
  with render_keeps_existing_objects [OF assms, of P hst "Some u" template]
  show ?thesis by simp
qed

theorem caller_mapping_not_mutated_witness:
  "(0::nat) < length [[(''Integer'', Str ''mine''), (''a'', Str ''hello'')]] \<and>
   render literalPlatform 0 [[(''Integer'', Str ''mine''), (''a'', Str ''hello'')]]
     ''$a #set($a = true)$a'' (Some 0) =
   (Inr ''hello true'',
    [[(''Integer'', Str ''mine''), (''a'', Str ''hello'')],
     [(''Integer'', IntegerHelper), (''a'', Bool True)]],
    1) \<and>
   fst (snd (render literalPlatform 0 [[(''Integer'', Str ''mine''), (''a'', Str ''hello'')]]
     ''$a #set($a = true)$a'' (Some 0))) ! 0 = [(''Integer'', Str ''mine''), (''a'', Str ''hello'')]"
proof -
  have len: "(0::nat) < length [[(''Integer'', Str ''mine''), (''a'', Str ''hello'')]]"
    by simp
  have whole: "render literalPlatform 0 [[(''Integer'', Str ''mine''), (''a'', Str ''hello'')]]
     ''$a #set($a = true)$a'' (Some 0) =
   (Inr ''hello true'',
    [[(''Integer'', Str ''mine''), (''a'', Str ''hello'')],
     [(''Integer'', IntegerHelper), (''a'', Bool True)]],
    1)"
    by code_simp
  from caller_mapping_not_mutated [OF len, of literalPlatform 0 "''$a #set($a = true)$a''"]
  have "fst (snd (render literalPlatform 0 [[(''Integer'', Str ''mine''), (''a'', Str ''hello'')]]
     ''$a #set($a = true)$a'' (Some 0))) ! 0 = [(''Integer'', Str ''mine''), (''a'', Str ''hello'')]"
    by simp
  with len whole show ?thesis by blast
qed

text \<open>
  Claim C10. A \<^verbatim>\<open>#set\<close> met while the active predicate is false does nothing: its
  body is not parsed, no error is thrown and the state (the context with it) is the
  same, whatever the body is.
\<close>

theorem inactive_set_is_noop:
  "\<not> isFrameActive (frameStack s) \<Longrightarrow> step P context s (TSet content) = (None, s)"
  by simp

theorem inactive_set_is_noop_witness:
  "\<not> isFrameActive [\<lparr>parentActive = True, active = False, branchSatisfied = False\<rparr>] \<and>
   matchSet ''no assignment here'' = None \<and>
   step literalPlatform 0
     \<lparr>objects = [BUILT_INS], host = 0,
      frameStack = [\<lparr>parentActive = True, active = False, branchSatisfied = False\<rparr>],
      outputs = []\<rparr>
     (TSet ''no assignment here'') =
   (None,
     \<lparr>objects = [BUILT_INS], host = 0,
      frameStack = [\<lparr>parentActive = True, active = False, branchSatisfied = False\<rparr>],
      outputs = []\<rparr>) \<and>
   fst (step literalPlatform 0 \<lparr>objects = [BUILT_INS], host = 0, frameStack = [], outputs = []\<rparr>
     (TSet ''no assignment here'')) = Some (UnableToParseSet ''no assignment here'') \<and>
   fst (render literalPlatform 0 [] ''#if(false)#set(no assignment here)#end'' None) = Inr []"
proof -
  have inact: "\<not> isFrameActive [\<lparr>parentActive = True, active = False, branchSatisfied = False\<rparr>]"
    by (simp add: isFrameActive_def)
  have nomatch: "matchSet ''no assignment here'' = None"
    by code_simp
  have skipped: "step literalPlatform 0
     \<lparr>objects = [BUILT_INS], host = 0,
      frameStack = [\<lparr>parentActive = True, active = False, branchSatisfied = False\<rparr>],
      outputs = []\<rparr>
     (TSet ''no assignment here'') =
   (None,
     \<lparr>objects = [BUILT_INS], host = 0,
      frameStack = [\<lparr>parentActive = True, active = False, branchSatisfied = False\<rparr>],
      outputs = []\<rparr>)"
    using inact by (intro inactive_set_is_noop) simp
  have thrown: "fst (step literalPlatform 0
      \<lparr>objects = [BUILT_INS], host = 0, frameStack = [], outputs = []\<rparr>
      (TSet ''no assignment here'')) = Some (UnableToParseSet ''no assignment here'')"
    by (simp add: nomatch isFrameActive_def)
  have whole: "fst (render literalPlatform 0 [] ''#if(false)#set(no assignment here)#end'' None) = Inr []"
    by code_simp
  from inact nomatch skipped thrown whole show ?thesis by blast
qed

text \<open>
  Claim C6. When the enclosing scope is inactive, an \<^verbatim>\<open>#if\<close> pushes an inactive
  frame and an \<^verbatim>\<open>#elseif\<close> whose frame has \<open>parentActive\<close> false leaves its frame
  inactive; neither evaluates its condition: the step throws nothing, whatever the
  script runner would do with the condition, and the host state is untouched.
\<close>

theorem skipped_condition_not_evaluated:
  "(\<not> isFrameActive (frameStack s) \<longrightarrow>
      step P context s (TIf content) =
        (None, s\<lparr>frameStack := frameStack s @
           [\<lparr>parentActive = False, active = False, branchSatisfied = False\<rparr>]\<rparr>)) \<and>
   (frameStack s \<noteq> [] \<and> \<not> parentActive (last (frameStack s)) \<longrightarrow>
      step P context s (TElseIf content) =
        (None, s\<lparr>frameStack := updateTop (frameStack s) ((last (frameStack s))\<lparr>active := False\<rparr>)\<rparr>))"
  by (simp add: Let_def)

theorem skipped_condition_not_evaluated_witness:
  "(\<not> isFrameActive [\<lparr>parentActive = True, active = False, branchSatisfied = False\<rparr>] \<and>
    step literalPlatform 0
      \<lparr>objects = [BUILT_INS], host = 0,
       frameStack = [\<lparr>parentActive = True, active = False, branchSatisfied = False\<rparr>],
       outputs = []\<rparr>
      (TIf ''boom'') =
    (None,
      \<lparr>objects = [BUILT_INS], host = 0,
       frameStack = [\<lparr>parentActive = True, active = False, branchSatisfied = False\<rparr>,
                     \<lparr>parentActive = False, active = False, branchSatisfied = False\<rparr>],
       outputs = []\<rparr>)) \<and>
   (step literalPlatform 0
      \<lparr>objects = [BUILT_INS], host = 0,
       frameStack = [\<lparr>parentActive = True, active = False, branchSatisfied = False\<rparr>,
                     \<lparr>parentActive = False, active = False, branchSatisfied = False\<rparr>],
       outputs = []\<rparr>
      (TElseIf ''boom'') =
    (None,
      \<lparr>objects = [BUILT_INS], host = 0,
       frameStack = [\<lparr>parentActive = True, active = False, branchSatisfied = False\<rparr>,
                     \<lparr>parentActive = False, active = False, branchSatisfied = False\<rparr>],
       outputs = []\<rparr>)) \<and>
   fst (render literalPlatform 0 [] ''#if(boom)#end'' None) = Inl (EvaluationError ''cannot evaluate: boom'') \<and>
   render literalPlatform 0 [] ''a#if(false)#if(boom)b#elseif(boom)c#end#end'' None =
     (Inr ''a'', [BUILT_INS], 1)"
proof -
  let ?s = "\<lparr>objects = [BUILT_INS], host = 0::nat,
       frameStack = [\<lparr>parentActive = True, active = False, branchSatisfied = False\<rparr>],
       outputs = []\<rparr>"
  let ?s' = "\<lparr>objects = [BUILT_INS], host = 0::nat,
       frameStack = [\<lparr>parentActive = True, active = False, branchSatisfied = False\<rparr>,
                     \<lparr>parentActive = False, active = False, branchSatisfied = False\<rparr>],
       outputs = []\<rparr>"
  have inact: "\<not> isFrameActive [\<lparr>parentActive = True, active = False, branchSatisfied = False\<rparr>]"
    by (simp add: isFrameActive_def)
  have "step literalPlatform 0 ?s (TIf ''boom'') = (None, ?s')"
    using skipped_condition_not_evaluated [of ?s literalPlatform 0 "''boom''"] inact
    by simp
  moreover have "step literalPlatform 0 ?s' (TElseIf ''boom'') = (None, ?s')"
    using skipped_condition_not_evaluated [of ?s' literalPlatform 0 "''boom''"]
    by (simp add: updateTop_def)
  moreover have "fst (render literalPlatform 0 [] ''#if(boom)#end'' None) =
      Inl (EvaluationError ''cannot evaluate: boom'')"
    by code_simp
  moreover have "render literalPlatform 0 [] ''a#if(false)#if(boom)b#elseif(boom)c#end#end'' None =
     (Inr ''a'', [BUILT_INS], 1)"
    by code_simp
  ultimately show ?thesis using inact by blast
qed

text \<open>
  Claim C7. \<open>render\<close> fails with a structural error exactly when the frame stack is
  misused. For a structural error \<open>e\<close>, \<open>render\<close> throws \<open>e\<close> if and only if the
  template tokenizes and either some \<^verbatim>\<open>#elseif\<close>, \<^verbatim>\<open>#else\<close> or \<^verbatim>\<open>#end\<close> whose
  error is \<open>e\<close> is reached, without an earlier error, on an empty frame stack, or \<open>e\<close>
  is the error of the unclosed \<^verbatim>\<open>#if\<close> and the whole token stream runs without an
  error and ends on a non-empty frame stack.
\<close>

theorem structural_error_iff_stack_misuse:
  assumes "isStructural e"
  shows "(fst (render P hst st template userContext) = Inl e) =
    (\<exists>tokens. tokenize template = Inr tokens \<and>
       ((\<exists>pre tok post s.
           tokens = pre @ tok # post \<and>
           run P (snd (createContext P hst st userContext))
             \<lparr>objects = fst (createContext P hst st userContext), host = hst, frameStack = [],
              outputs = []\<rparr> pre = (None, s) \<and>
           frameStack s = [] \<and> closerError tok = Some e) \<or>
        (e = UnclosedIf \<and>
         (\<exists>s. run P (snd (createContext P hst st userContext))
             \<lparr>objects = fst (createContext P hst st userContext), host = hst, frameStack = [],
              outputs = []\<rparr> tokens = (None, s) \<and>
           frameStack s \<noteq> []))))"
    (is "?L = ?R")
proof
  let ?c = "length st"
  let ?s0 = "\<lparr>objects = fst (createContext P hst st userContext), host = hst, frameStack = [],
              outputs = []\<rparr>"
  assume L: ?L
  show ?R
  proof (cases "tokenize template")
    case (Inl e')
    with L have "e' = e" by (simp add: render_result)
    with Inl tokenize_not_structural [of template e] assms show ?thesis by simp
  next
    case (Inr tokens)
    obtain eo s where r: "run P ?c ?s0 tokens = (eo, s)" by (cases "run P ?c ?s0 tokens")
    show ?thesis
    proof (cases eo)
      case (Some e')
      with L Inr r have "fst (run P ?c ?s0 tokens) = Some e" by (simp add: render_result)
      from run_structural_only_if [OF assms this] Inr show ?thesis
        by (simp add: createContext_ref)
    next
      case None
      with L Inr r have "e = UnclosedIf \<and> frameStack s \<noteq> []"
        by (simp add: render_result split: if_splits)
      with Inr r None show ?thesis by (simp add: createContext_ref)
    qed
  qed
next
  let ?c = "length st"
  let ?s0 = "\<lparr>objects = fst (createContext P hst st userContext), host = hst, frameStack = [],
              outputs = []\<rparr>"
  assume R: ?R
  then have "\<exists>tokens. tokenize template = Inr tokens \<and>
      ((\<exists>pre tok post s. tokens = pre @ tok # post \<and> run P ?c ?s0 pre = (None, s) \<and>
           frameStack s = [] \<and> closerError tok = Some e) \<or>
        (e = UnclosedIf \<and> (\<exists>s. run P ?c ?s0 tokens = (None, s) \<and> frameStack s \<noteq> [])))"
    by (simp only: createContext_ref)
  then obtain tokens where tk: "tokenize template = Inr tokens"
    and alt: "(\<exists>pre tok post s. tokens = pre @ tok # post \<and> run P ?c ?s0 pre = (None, s) \<and>
           frameStack s = [] \<and> closerError tok = Some e) \<or>
        (e = UnclosedIf \<and> (\<exists>s. run P ?c ?s0 tokens = (None, s) \<and> frameStack s \<noteq> []))"
    by blast
  from alt show ?L
  proof
    assume "\<exists>pre tok post s. tokens = pre @ tok # post \<and> run P ?c ?s0 pre = (None, s) \<and>
           frameStack s = [] \<and> closerError tok = Some e"
    then obtain pre tok post s where "tokens = pre @ tok # post" "run P ?c ?s0 pre = (None, s)"
      "frameStack s = []" "closerError tok = Some e" by blast
    then have "run P ?c ?s0 tokens = (Some e, s)" by (rule run_structural_if)
    with tk show ?L by (simp add: render_result)
  next
    assume "e = UnclosedIf \<and> (\<exists>s. run P ?c ?s0 tokens = (None, s) \<and> frameStack s \<noteq> [])"
    with tk show ?L by (auto simp: render_result)
  qed
qed

theorem structural_error_iff_stack_misuse_witness:
  "isStructural EndWithoutIf \<and>
   fst (render literalPlatform 0 [] ''a#end'' None) = Inl EndWithoutIf \<and>
   tokenize ''a#end'' = Inr [TText ''a'', TEnd] \<and>
   fst (render literalPlatform 0 [] ''#if(true)a'' None) = Inl UnclosedIf \<and>
   fst (render literalPlatform 0 [] ''#if(true)a#end'' None) \<noteq> Inl EndWithoutIf \<and>
   (\<exists>tokens. tokenize ''a#end'' = Inr tokens \<and>
       ((\<exists>pre tok post s.
           tokens = pre @ tok # post \<and>
           run literalPlatform (snd (createContext literalPlatform 0 [] None))
             \<lparr>objects = fst (createContext literalPlatform 0 [] None), host = 0, frameStack = [],
              outputs = []\<rparr> pre = (None, s) \<and>
           frameStack s = [] \<and> closerError tok = Some EndWithoutIf) \<or>
        (EndWithoutIf = UnclosedIf \<and>
         (\<exists>s. run literalPlatform (snd (createContext literalPlatform 0 [] None))
             \<lparr>objects = fst (createContext literalPlatform 0 [] None), host = 0, frameStack = [],
              outputs = []\<rparr> tokens = (None, s) \<and>
           frameStack s \<noteq> []))))"
proof -
  have st: "isStructural EndWithoutIf" by (simp add: isStructural_def)
  have r1: "fst (render literalPlatform 0 [] ''a#end'' None) = Inl EndWithoutIf" by code_simp
  have tk: "tokenize ''a#end'' = Inr [TText ''a'', TEnd]" by code_simp
  have r2: "fst (render literalPlatform 0 [] ''#if(true)a'' None) = Inl UnclosedIf" by code_simp
  have r3: "fst (render literalPlatform 0 [] ''#if(true)a#end'' None) = Inr ''a''" by code_simp
  have r3': "fst (render literalPlatform 0 [] ''#if(true)a#end'' None) \<noteq> Inl EndWithoutIf"
    by (simp add: r3)
  from structural_error_iff_stack_misuse [OF st, of literalPlatform 0 "[]" "''a#end''" None] r1
  have "\<exists>tokens. tokenize ''a#end'' = Inr tokens \<and>
       ((\<exists>pre tok post s.
           tokens = pre @ tok # post \<and>
           run literalPlatform (snd (createContext literalPlatform 0 [] None))
             \<lparr>objects = fst (createContext literalPlatform 0 [] None), host = 0, frameStack = [],
              outputs = []\<rparr> pre = (None, s) \<and>
           frameStack s = [] \<and> closerError tok = Some EndWithoutIf) \<or>
        (EndWithoutIf = UnclosedIf \<and>
         (\<exists>s. run literalPlatform (snd (createContext literalPlatform 0 [] None))
             \<lparr>objects = fst (createContext literalPlatform 0 [] None), host = 0, frameStack = [],
              outputs = []\<rparr> tokens = (None, s) \<and>
           frameStack s \<noteq> [])))"
    by blast
  with st r1 tk r2 r3' show ?thesis by blast
qed

text \<open>
  Claim C5. Within one \<^verbatim>\<open>#if\<close>/\<^verbatim>\<open>#elseif\<close>/\<^verbatim>\<open>#else\<close> chain at most one branch is
  active. Let a branch token of the chain (the \<^verbatim>\<open>#if\<close> that pushed the frame at index
  \<open>i\<close>, or an \<^verbatim>\<open>#elseif\<close> or \<^verbatim>\<open>#else\<close> on it) leave the frame active or with
  \<open>branchSatisfied\<close> set. Then, after any tokens during which the frame stays open
  (nested blocks among them), every later \<^verbatim>\<open>#elseif\<close> or \<^verbatim>\<open>#else\<close> of the chain
  throws nothing, evaluates nothing and leaves the frame inactive with the flag still
  set, whatever the conditions evaluate to.
\<close>

theorem at_most_one_branch_active:
  assumes "step P context s0 tok0 = (None, s1)"
    and "tok0 = TIf c0 \<or> tok0 = TElseIf c0 \<or> tok0 = TElse"
    and "length (frameStack s1) = Suc i"
    and "active (frameStack s1 ! i) \<or> branchSatisfied (frameStack s1 ! i)"
    and "staysOpen P context i s1 toks"
    and "run P context s1 toks = (None, s2)"
    and "length (frameStack s2) = Suc i"
    and "tok = TElseIf content \<or> tok = TElse"
  shows "\<exists>s3. step P context s2 tok = (None, s3) \<and> length (frameStack s3) = Suc i \<and>
           \<not> active (frameStack s3 ! i) \<and> branchSatisfied (frameStack s3 ! i) \<and>
           \<not> isFrameActive (frameStack s3) \<and> host s3 = host s2"
proof -
  from assms(4) step_branch_flag [OF assms(1,2,3)]
  have "branchSatisfied (frameStack s1 ! i)" by blast
  from run_keeps_flag [OF assms(5,6) this]
  have "branchSatisfied (frameStack s2 ! i)" by simp
  from step_satisfied_top [OF assms(7) this assms(8), of P "context"]
  obtain s3 where s3: "step P context s2 tok = (None, s3)" "length (frameStack s3) = Suc i"
    "\<not> active (frameStack s3 ! i)" "branchSatisfied (frameStack s3 ! i)" "host s3 = host s2"
    by blast
  from s3(2) have "frameStack s3 ! i \<in> set (frameStack s3)" by simp
  with s3(3) have "\<not> isFrameActive (frameStack s3)"
    by (auto simp: isFrameActive_def list_all_iff)
  with s3 show ?thesis by blast
qed


theorem at_most_one_branch_active_witness:
  "step literalPlatform 0 \<lparr>objects = [BUILT_INS], host = 0, frameStack = [], outputs = []\<rparr>
     (TIf ''true'') =
     (None, \<lparr>objects = [BUILT_INS], host = 1,
        frameStack = [\<lparr>parentActive = True, active = True, branchSatisfied = True\<rparr>],
        outputs = []\<rparr>) \<and>
   staysOpen literalPlatform 0 0
     \<lparr>objects = [BUILT_INS], host = 1,
      frameStack = [\<lparr>parentActive = True, active = True, branchSatisfied = True\<rparr>],
      outputs = []\<rparr>
     [TText ''a'', TIf ''false'', TText ''x'', TEnd] \<and>
   run literalPlatform 0
     \<lparr>objects = [BUILT_INS], host = 1,
      frameStack = [\<lparr>parentActive = True, active = True, branchSatisfied = True\<rparr>],
      outputs = []\<rparr>
     [TText ''a'', TIf ''false'', TText ''x'', TEnd] =
     (None, \<lparr>objects = [BUILT_INS], host = 2,
        frameStack = [\<lparr>parentActive = True, active = True, branchSatisfied = True\<rparr>],
        outputs = [''a'']\<rparr>) \<and>
   (\<exists>s3. step literalPlatform 0
       \<lparr>objects = [BUILT_INS], host = 2,
        frameStack = [\<lparr>parentActive = True, active = True, branchSatisfied = True\<rparr>],
        outputs = [''a'']\<rparr> (TElseIf ''true'') = (None, s3) \<and>
      length (frameStack s3) = Suc 0 \<and> \<not> active (frameStack s3 ! 0) \<and>
      branchSatisfied (frameStack s3 ! 0) \<and> \<not> isFrameActive (frameStack s3) \<and>
      host s3 = host \<lparr>objects = [BUILT_INS], host = 2,
        frameStack = [\<lparr>parentActive = True, active = True, branchSatisfied = True\<rparr>],
        outputs = [''a'']\<rparr>) \<and>
   fst (render literalPlatform 0 [] ''#if(true)a#if(false)x#end#elseif(true)b#else c#end'' None)
     = Inr ''a'' \<and>
   fst (render literalPlatform 0 [] ''#if(false)a#elseif(true)b#elseif(true)c#else d#end'' None)
     = Inr ''b'' \<and>
   fst (render literalPlatform 0 [] ''#if(false)a#elseif(false)b#else c#else d#end'' None)
     = Inr '' c''"
proof -
  let ?s0 = "\<lparr>objects = [BUILT_INS], host = 0::nat, frameStack = [], outputs = []\<rparr>"
  let ?s1 = "\<lparr>objects = [BUILT_INS], host = 1::nat,
      frameStack = [\<lparr>parentActive = True, active = True, branchSatisfied = True\<rparr>],
      outputs = []\<rparr>"
  let ?s2 = "\<lparr>objects = [BUILT_INS], host = 2::nat,
      frameStack = [\<lparr>parentActive = True, active = True, branchSatisfied = True\<rparr>],
      outputs = [''a'']\<rparr>"
  let ?toks = "[TText ''a'', TIf ''false'', TText ''x'', TEnd]"
  have h1: "step literalPlatform 0 ?s0 (TIf ''true'') = (None, ?s1)" by code_simp
  have h2: "TIf ''true'' = TIf ''true'' \<or> TIf ''true'' = TElseIf ''true'' \<or> TIf ''true'' = TElse"
    by simp
  have h3: "length (frameStack ?s1) = Suc 0" by simp
  have h4: "active (frameStack ?s1 ! 0) \<or> branchSatisfied (frameStack ?s1 ! 0)" by simp
  have h5: "staysOpen literalPlatform 0 0 ?s1 ?toks" by code_simp
  have h6: "run literalPlatform 0 ?s1 ?toks = (None, ?s2)" by code_simp
  have h7: "length (frameStack ?s2) = Suc 0" by simp
  have h8: "TElseIf ''true'' = TElseIf ''true'' \<or> TElseIf ''true'' = TElse" by simp
  note concl = at_most_one_branch_active [OF h1 h2 h3 h4 h5 h6 h7 h8]
  have r1: "fst (render literalPlatform 0 []
      ''#if(true)a#if(false)x#end#elseif(true)b#else c#end'' None) = Inr ''a''"
    by code_simp
  have r2: "fst (render literalPlatform 0 []
      ''#if(false)a#elseif(true)b#elseif(true)c#else d#end'' None) = Inr ''b''"
    by code_simp
  have r3: "fst (render literalPlatform 0 []
      ''#if(false)a#elseif(false)b#else c#else d#end'' None) = Inr '' c''"
    by code_simp
  from h1 h5 h6 concl r1 r2 r3 show ?thesis by blast
qed

text \<open>
  Claim C1 says that white space between a directive keyword and its parenthesis
  changes neither the tokens nor the result, and the repository's test of an indented
  template relies on it. The tokenizer does not do so: it looks for the keyword with
  the parenthesis attached. With a space, \<^verbatim>\<open>#if\<close> and \<^verbatim>\<open>#set\<close> become text, and
  \<^verbatim>\<open>#elseif\<close> becomes an \<^verbatim>\<open>#else\<close> followed by text; the template
  \<^verbatim>\<open>#if (true)x#end\<close> fails on its \<^verbatim>\<open>#end\<close> for every script runner, where
  \<^verbatim>\<open>#if(true)x#end\<close> renders \<open>x\<close>.
\<close>

theorem space_before_paren_not_tolerated:
  "tokenize ''#if (true)x#end'' = Inr [TText ''#'', TText ''if (true)x'', TEnd] \<and>
   tokenize ''#if(true)x#end'' = Inr [TIf ''true'', TText ''x'', TEnd] \<and>
   tokenize ''#set ($v = true)'' = Inr [TText ''#'', TText ''set ($v = true)''] \<and>
   tokenize ''#set($v = true)'' = Inr [TSet ''$v = true''] \<and>
   tokenize ''#elseif (true)'' = Inr [TElse, TText ''if (true)''] \<and>
   tokenize ''#elseif(true)'' = Inr [TElseIf ''true''] \<and>
   fst (render P hst st ''#if (true)x#end'' userContext) = Inl EndWithoutIf \<and>
   fst (render literalPlatform 0 [] ''#if(true)x#end'' None) = Inr ''x''"
proof -
  have bad: "fst (render P hst st ''#if (true)x#end'' userContext) = Inl EndWithoutIf"
    by (simp add: render_result tokenize_spaced isFrameActive_def)
  have good: "fst (render literalPlatform 0 [] ''#if(true)x#end'' None) = Inr ''x''"
    by code_simp
  from tokenize_spaced bad good show ?thesis by simp
qed

text \<open>
  Claim C2 says that \<open>renderTemplate\<close> falls back to \<open>render\<close> when the external
  renderer returns a null value or throws, and the repository's test of a throwing
  renderer expects the fallback. Nothing in \<open>renderTemplate\<close> or
  \<open>renderWithVelocity\<close> catches: when the external renderer throws,
  \<open>renderTemplate\<close> throws the same error, whatever \<open>render\<close> would have returned.
\<close>

theorem velocity_throw_aborts_renderTemplate:
  assumes "preferVelocity opts"
    and "eng template (fst (createContext P hst st userContext) ! snd (createContext P hst st userContext))
           = Inl m"
  shows "fst (renderTemplate P (Some eng) hst st template userContext opts)
           = Inl (VelocityError m)"
proof -
  obtain st1 c where cc: "createContext P hst st userContext = (st1, c)"
    by (cases "createContext P hst st userContext")
  with assms(2) have "eng template (st1 ! c) = Inl m" by simp
  with assms(1) cc show ?thesis
    by (simp add: renderTemplate_def renderWithVelocity_def)
qed

theorem velocity_throw_aborts_renderTemplate_witness:
  "preferVelocity \<lparr>preferVelocity = True\<rparr> \<and>
   fst (renderTemplate literalPlatform (Some (\<lambda>t c. Inl ''velocity failure'')) 0 []
          ''hello'' None \<lparr>preferVelocity = True\<rparr>) = Inl (VelocityError ''velocity failure'') \<and>
   fst (render literalPlatform 0 [] ''hello'' None) = Inr ''hello'' \<and>
   fst (renderTemplate literalPlatform None 0 [] ''hello'' None \<lparr>preferVelocity = True\<rparr>)
     = Inr (Str ''hello'')"
proof -
  have h1: "preferVelocity \<lparr>preferVelocity = True\<rparr>" by simp
  have h2: "(\<lambda>t c. Inl ''velocity failure'' :: string + val) ''hello''
      (fst (createContext literalPlatform 0 [] None) ! snd (createContext literalPlatform 0 [] None)) = Inl ''velocity failure''"
    by simp
  note thrown = velocity_throw_aborts_renderTemplate
    [where opts = "\<lparr>preferVelocity = True\<rparr>" and eng = "\<lambda>t c. Inl ''velocity failure''"
      and template = "''hello''" and st = "[]" and userContext = None
      and m = "''velocity failure''" and P = literalPlatform and hst = 0, OF h1 h2]
  have r: "fst (render literalPlatform 0 [] ''hello'' None) = Inr ''hello''" by code_simp
  have n: "fst (renderTemplate literalPlatform None 0 [] ''hello'' None \<lparr>preferVelocity = True\<rparr>)
     = Inr (Str ''hello'')"
    by (simp add: renderTemplate_without_engine r)
  from h1 thrown r n show ?thesis by blast
qed





text \<open>
  Claim C3, as amended. Take an active \<^verbatim>\<open>#set\<close> that the guard of the builtin names
  lets through, whose expression evaluates to \<open>v\<close>, in a host where
  \<^verbatim>\<open>Number.isInteger\<close> and \<^verbatim>\<open>Math.trunc\<close> are the built-in functions after the
  evaluation. It throws nothing and stores \<open>normalizeValue v\<close> under the target. For a
  finite number that is the integer obtained by truncating toward zero (no larger in
  magnitude, less than one away, never of the opposite sign); an integer is stored as
  it is, and so is every value that is not a finite number: a string, a boolean, and
  also NaN and the two infinities. A result of \<open>10 / 3\<close> is stored as \<open>3\<close> and one
  of \<open>-7 / 2\<close> as \<open>-3\<close>. Evaluation itself does not truncate: whatever value the
  script runner returns is the value of \<open>evaluateExpression\<close>, and a condition for
  which the runner returns one half is true.
\<close>

theorem set_stores_truncated_value:
  assumes "isFrameActive (frameStack s)"
    and "matchSet content = Some (variableName, expression)"
    and "\<not> truthy (hasOwnProperty P (host s) BUILT_INS variableName)"
    and "evaluateExpression P (host s) expression (objects s ! context) = (Inr v, hst)"
    and "numbersIntact P hst"
    and "context < length (objects s)"
  shows "fst (step P context s (TSet content)) = None \<and>
         getProp (objects (snd (step P context s (TSet content))) ! context) variableName
           = normalizeValue P hst v \<and>
         (\<forall>q. v = Num (Fin q) \<longrightarrow>
            (\<exists>z::int. normalizeValue P hst v = Num (Fin (of_int z)) \<and>
               \<bar>of_int z\<bar> \<le> \<bar>q\<bar> \<and> \<bar>q\<bar> < \<bar>of_int z\<bar> + 1 \<and> 0 \<le> of_int z * q)) \<and>
         (\<forall>z::int. v = Num (Fin (of_int z)) \<longrightarrow> normalizeValue P hst v = v) \<and>
         ((\<forall>q. v \<noteq> Num (Fin q)) \<longrightarrow> normalizeValue P hst v = v) \<and>
         (v = Num (Fin (10 / 3)) \<longrightarrow> normalizeValue P hst v = Num (Fin 3)) \<and>
         (v = Num (Fin (- 7 / 2)) \<longrightarrow> normalizeValue P hst v = Num (Fin (- 3))) \<and>
         (\<forall>e h w h'.
            runScript P h (replaceAll resolveCall e)
              (\<lambda>name. coerceNumericLike P (getProp (objects s ! context) name)) = (Inr w, h')
            \<longrightarrow> evaluateExpression P h e (objects s ! context) = (Inr w, h')) \<and>
         (\<forall>cond hst'.
            runScript P (host s) (replaceAll resolveCall cond)
              (\<lambda>name. coerceNumericLike P (getProp (objects s ! context) name))
              = (Inr (Num (Fin (1 / 2))), hst')
            \<longrightarrow> active (last (frameStack (snd (step P context s (TIf cond))))))"
proof -
  note st = step_set_stores [OF assms(1-4)]
  note intact = assms(5)
  have a: "fst (step P context s (TSet content)) = None"
    by (simp only: st fst_conv)
  have b: "getProp (objects (snd (step P context s (TSet content))) ! context) variableName
      = normalizeValue P hst v"
    using assms(6) by (simp only: st snd_conv) (simp add: writeProp_same getProp_setProp)
  have c: "\<forall>q. v = Num (Fin q) \<longrightarrow>
            (\<exists>z::int. normalizeValue P hst v = Num (Fin (of_int z)) \<and>
               \<bar>of_int z\<bar> \<le> \<bar>q\<bar> \<and> \<bar>q\<bar> < \<bar>of_int z\<bar> + 1 \<and> 0 \<le> of_int z * q)"
    using normalizeValue_finite [OF intact] by blast
  have d: "\<forall>z::int. v = Num (Fin (of_int z)) \<longrightarrow> normalizeValue P hst v = v"
    using normalizeValue_integer [OF intact] by simp
  have e: "(\<forall>q. v \<noteq> Num (Fin q)) \<longrightarrow> normalizeValue P hst v = v"
    using normalizeValue_other [OF intact] by blast
  have f: "(v = Num (Fin (10 / 3)) \<longrightarrow> normalizeValue P hst v = Num (Fin 3)) \<and>
         (v = Num (Fin (- 7 / 2)) \<longrightarrow> normalizeValue P hst v = Num (Fin (- 3)))"
    using normalizeValue_examples [OF intact] by simp
  have g: "\<forall>e h w h'.
            runScript P h (replaceAll resolveCall e)
              (\<lambda>name. coerceNumericLike P (getProp (objects s ! context) name)) = (Inr w, h')
            \<longrightarrow> evaluateExpression P h e (objects s ! context) = (Inr w, h')"
    by (simp add: evaluateExpression_script)
  have h: "\<forall>cond hst'.
            runScript P (host s) (replaceAll resolveCall cond)
              (\<lambda>name. coerceNumericLike P (getProp (objects s ! context) name))
              = (Inr (Num (Fin (1 / 2))), hst')
            \<longrightarrow> active (last (frameStack (snd (step P context s (TIf cond)))))"
    using assms(1) truthy_fraction by (simp add: Let_def evaluateExpression_script)
  from a b c d e f g h show ?thesis by blast
qed


theorem set_stores_truncated_value_witness:
  "isFrameActive [] \<and>
   matchSet ''$v = 10 / 3'' = Some (''v'', ''10 / 3'') \<and>
   \<not> truthy (hasOwnProperty literalPlatform (0::nat) BUILT_INS ''v'') \<and>
   numbersIntact literalPlatform (1::nat) \<and>
   evaluateExpression literalPlatform 0 ''10 / 3'' BUILT_INS = (Inr (Num (Fin (10 / 3))), 1) \<and>
   getProp (objects (snd (step literalPlatform 0
       \<lparr>objects = [BUILT_INS], host = 0, frameStack = [], outputs = []\<rparr>
       (TSet ''$v = 10 / 3''))) ! 0) ''v'' = Num (Fin 3) \<and>
   step literalPlatform 0 \<lparr>objects = [BUILT_INS], host = 0, frameStack = [], outputs = []\<rparr>
       (TSet ''$v = -7 / 2'') =
     (None, \<lparr>objects = [[(''Integer'', IntegerHelper), (''v'', Num (Fin (- 3)))]], host = 1,
              frameStack = [], outputs = []\<rparr>) \<and>
   step literalPlatform 0 \<lparr>objects = [BUILT_INS], host = 0, frameStack = [], outputs = []\<rparr>
       (TIf ''1 / 2'') =
     (None, \<lparr>objects = [BUILT_INS], host = 1,
              frameStack = [\<lparr>parentActive = True, active = True, branchSatisfied = True\<rparr>],
              outputs = []\<rparr>) \<and>
   fst (render literalPlatform 0 [] ''#set($v = 10 / 3)$v #set($w = -7 / 2)$w'' None)
     = Inr ''3 -3''"
proof -
  let ?s = "\<lparr>objects = [BUILT_INS], host = 0::nat, frameStack = [], outputs = []\<rparr>"
  have h1: "isFrameActive (frameStack ?s)" by (simp add: isFrameActive_def)
  have h2: "matchSet ''$v = 10 / 3'' = Some (''v'', ''10 / 3'')" by code_simp
  have h3': "\<not> truthy (hasOwnProperty literalPlatform (0::nat) BUILT_INS ''v'')" by code_simp
  then have h3: "\<not> truthy (hasOwnProperty literalPlatform (host ?s) BUILT_INS ''v'')" by simp
  have h4a: "numbersIntact literalPlatform (1::nat)" by (rule numbersIntact_literal)
  have h4': "evaluateExpression literalPlatform 0 ''10 / 3'' BUILT_INS = (Inr (Num (Fin (10 / 3))), 1)"
    by code_simp
  then have h4: "evaluateExpression literalPlatform (host ?s) ''10 / 3'' (objects ?s ! 0)
      = (Inr (Num (Fin (10 / 3))), 1)"
    by simp
  have h5: "0 < length (objects ?s)" by simp
  from set_stores_truncated_value [OF h1 h2 h3 h4 h4a h5]
  have stored: "getProp (objects (snd (step literalPlatform 0 ?s (TSet ''$v = 10 / 3''))) ! 0) ''v''
      = Num (Fin 3)"
    by simp
  have neg: "step literalPlatform 0 ?s (TSet ''$v = -7 / 2'') =
     (None, \<lparr>objects = [[(''Integer'', IntegerHelper), (''v'', Num (Fin (- 3)))]], host = 1,
              frameStack = [], outputs = []\<rparr>)"
    by code_simp
  have cond: "step literalPlatform 0 ?s (TIf ''1 / 2'') =
     (None, \<lparr>objects = [BUILT_INS], host = 1,
              frameStack = [\<lparr>parentActive = True, active = True, branchSatisfied = True\<rparr>],
              outputs = []\<rparr>)"
    by code_simp
  have whole: "fst (render literalPlatform 0 [] ''#set($v = 10 / 3)$v #set($w = -7 / 2)$w'' None)
     = Inr ''3 -3''"
    by code_simp
  from h1 h2 h3' h4a h4' stored neg cond whole show ?thesis by simp
qed

text \<open>
  The claim C3 as it was stated promises an integer for every non-integer number. NaN
  and the infinities are numbers and not integers, and \<^verbatim>\<open>Math.trunc\<close> returns them
  unchanged: \<^verbatim>\<open>#set($v = 0 / 0)\<close> stores NaN. And after an expression has replaced
  \<^verbatim>\<open>Math.trunc\<close> on the shared \<^verbatim>\<open>Math\<close> object, a \<^verbatim>\<open>#set\<close> stores what the
  replacement returns: three and a half for \<open>-7 / 2\<close>.
\<close>

theorem set_stores_nan_counterexample:
  "isFrameActive [] \<and>
   matchSet ''$v = 0 / 0'' = Some (''v'', ''0 / 0'') \<and>
   evaluateExpression literalPlatform 0 ''0 / 0'' BUILT_INS = (Inr (Num NaN), 1) \<and>
   \<not> isInteger NaN \<and>
   step literalPlatform 0 \<lparr>objects = [BUILT_INS], host = 0, frameStack = [], outputs = []\<rparr>
       (TSet ''$v = 0 / 0'') =
     (None, \<lparr>objects = [[(''Integer'', IntegerHelper), (''v'', Num NaN)]], host = 1,
              frameStack = [], outputs = []\<rparr>) \<and>
   normalizeValue literalPlatform (0::nat) (Num PosInf) = Num PosInf \<and> \<not> isInteger PosInf \<and>
   render leakyPlatform \<lparr>truncReplaced = False, hasOwnReplaced = False\<rparr> []
     ''#set($a = (Math.trunc = Math.abs, 0))#set($v = -7 / 2)'' None =
     (Inr [], [[(''Integer'', IntegerHelper), (''a'', Num (Fin 0)), (''v'', Num (Fin (7 / 2)))]],
      \<lparr>truncReplaced = True, hasOwnReplaced = False\<rparr>) \<and>
   fst (render literalPlatform 0 [] ''#set($v = 0 / 0)$v'' None) = Inr ''NaN''"
proof -
  have "isFrameActive []" by (simp add: isFrameActive_def)
  moreover have "matchSet ''$v = 0 / 0'' = Some (''v'', ''0 / 0'')" by code_simp
  moreover have "evaluateExpression literalPlatform 0 ''0 / 0'' BUILT_INS = (Inr (Num NaN), 1)"
    by code_simp
  moreover have "\<not> isInteger NaN" "\<not> isInteger PosInf" by (simp_all add: isInteger_def)
  moreover have "step literalPlatform 0
       \<lparr>objects = [BUILT_INS], host = 0, frameStack = [], outputs = []\<rparr>
       (TSet ''$v = 0 / 0'') =
     (None, \<lparr>objects = [[(''Integer'', IntegerHelper), (''v'', Num NaN)]], host = 1,
              frameStack = [], outputs = []\<rparr>)"
    by code_simp
  moreover have "normalizeValue literalPlatform (0::nat) (Num PosInf) = Num PosInf"
    by code_simp
  moreover have "render leakyPlatform \<lparr>truncReplaced = False, hasOwnReplaced = False\<rparr> []
     ''#set($a = (Math.trunc = Math.abs, 0))#set($v = -7 / 2)'' None =
     (Inr [], [[(''Integer'', IntegerHelper), (''a'', Num (Fin 0)), (''v'', Num (Fin (7 / 2)))]],
      \<lparr>truncReplaced = True, hasOwnReplaced = False\<rparr>)"
    by code_simp
  moreover have "fst (render literalPlatform 0 [] ''#set($v = 0 / 0)$v'' None) = Inr ''NaN''"
    by code_simp
  ultimately show ?thesis by blast
qed

text \<open>
  Claim C8 says that the result and the effects of \<open>evaluateExpression\<close> depend only
  on the expression text, the resolver and pure operations. The code hands the script
  the host's own \<^verbatim>\<open>Math\<close> and \<^verbatim>\<open>Number\<close> objects, unfrozen, and a closure of the
  host realm: the host state a script leaves is the one the next evaluation starts
  from. The same expression over the same context gives \<open>-3\<close> before and three and
  a half after another expression has replaced \<^verbatim>\<open>Math.trunc\<close>, and the replacement
  changes what a later \<^verbatim>\<open>#set\<close> of the renderer stores.
\<close>

theorem script_changes_host_functions:
  "snd (evaluateExpression P h e ctx) =
     snd (runScript P h (replaceAll resolveCall e) (\<lambda>name. coerceNumericLike P (getProp ctx name))) \<and>
   evaluateExpression leakyPlatform \<lparr>truncReplaced = False, hasOwnReplaced = False\<rparr>
     ''Math.trunc(-7 / 2)'' BUILT_INS =
     (Inr (Num (Fin (- 3))), \<lparr>truncReplaced = False, hasOwnReplaced = False\<rparr>) \<and>
   evaluateExpression leakyPlatform \<lparr>truncReplaced = False, hasOwnReplaced = False\<rparr>
     ''(Math.trunc = Math.abs, 0)'' BUILT_INS =
     (Inr (Num (Fin 0)), \<lparr>truncReplaced = True, hasOwnReplaced = False\<rparr>) \<and>
   evaluateExpression leakyPlatform \<lparr>truncReplaced = True, hasOwnReplaced = False\<rparr>
     ''Math.trunc(-7 / 2)'' BUILT_INS =
     (Inr (Num (Fin (7 / 2))), \<lparr>truncReplaced = True, hasOwnReplaced = False\<rparr>) \<and>
   render leakyPlatform \<lparr>truncReplaced = False, hasOwnReplaced = False\<rparr> []
     ''#set($v = -7 / 2)$v'' None =
     (Inr ''-3'', [[(''Integer'', IntegerHelper), (''v'', Num (Fin (- 3)))]],
      \<lparr>truncReplaced = False, hasOwnReplaced = False\<rparr>) \<and>
   fst (snd (render leakyPlatform \<lparr>truncReplaced = False, hasOwnReplaced = False\<rparr> []
     ''#set($a = (Math.trunc = Math.abs, 0))#set($v = -7 / 2)$v'' None)) =
     [[(''Integer'', IntegerHelper), (''a'', Num (Fin 0)), (''v'', Num (Fin (7 / 2)))]]"
proof -
  have "snd (evaluateExpression P h e ctx) =
     snd (runScript P h (replaceAll resolveCall e) (\<lambda>name. coerceNumericLike P (getProp ctx name)))"
    by (simp add: evaluateExpression_script)
  moreover have "evaluateExpression leakyPlatform \<lparr>truncReplaced = False, hasOwnReplaced = False\<rparr>
     ''Math.trunc(-7 / 2)'' BUILT_INS =
     (Inr (Num (Fin (- 3))), \<lparr>truncReplaced = False, hasOwnReplaced = False\<rparr>)"
    by code_simp
  moreover have "evaluateExpression leakyPlatform \<lparr>truncReplaced = False, hasOwnReplaced = False\<rparr>
     ''(Math.trunc = Math.abs, 0)'' BUILT_INS =
     (Inr (Num (Fin 0)), \<lparr>truncReplaced = True, hasOwnReplaced = False\<rparr>)"
    by code_simp
  moreover have "evaluateExpression leakyPlatform \<lparr>truncReplaced = True, hasOwnReplaced = False\<rparr>
     ''Math.trunc(-7 / 2)'' BUILT_INS =
     (Inr (Num (Fin (7 / 2))), \<lparr>truncReplaced = True, hasOwnReplaced = False\<rparr>)"
    by code_simp
  moreover have "render leakyPlatform \<lparr>truncReplaced = False, hasOwnReplaced = False\<rparr> []
     ''#set($v = -7 / 2)$v'' None =
     (Inr ''-3'', [[(''Integer'', IntegerHelper), (''v'', Num (Fin (- 3)))]],
      \<lparr>truncReplaced = False, hasOwnReplaced = False\<rparr>)"
    by code_simp
  moreover have "fst (snd (render leakyPlatform \<lparr>truncReplaced = False, hasOwnReplaced = False\<rparr> []
     ''#set($a = (Math.trunc = Math.abs, 0))#set($v = -7 / 2)$v'' None)) =
     [[(''Integer'', IntegerHelper), (''a'', Num (Fin 0)), (''v'', Num (Fin (7 / 2)))]]"
    by code_simp
  ultimately show ?thesis by blast
qed

end
